theory Spec2Isabelle
  imports Main
begin

section \<open>JavaScript strings\<close>

text \<open>
  A JavaScript string is modelled as a \<open>string\<close>, one \<open>char\<close> per UTF-16 code unit
  (a \<open>char\<close> has eight bits: a code unit above 255, which only two literals of the
  source contain, is written as its low byte); \<open>length\<close> is the \<open>.length\<close> of the
  source.  \<open>toLowerCase\<close> is the source's
  \<open>String.prototype.toLowerCase\<close> on the code units below 256: the letters A to Z and the
  Latin-1 capitals U+00C0 to U+00DE (the multiplication sign U+00D7 apart) move up by 32;
  the table pairs each capital with its small letter.
\<close>

definition lowerChar :: "char \<Rightarrow> char" where
  "lowerChar c =
     (let n = (of_char c :: nat)
      in if (65 \<le> n \<and> n \<le> 90) \<or> (192 \<le> n \<and> n \<le> 222 \<and> n \<noteq> 215)
         then (case map_of
                 (zip (''ABCDEFGHIJKLMNOPQRSTUVWXYZ''
                       @ [CHR 0xC0, CHR 0xC1, CHR 0xC2, CHR 0xC3, CHR 0xC4, CHR 0xC5, CHR 0xC6,
                          CHR 0xC7, CHR 0xC8, CHR 0xC9, CHR 0xCA, CHR 0xCB, CHR 0xCC, CHR 0xCD,
                          CHR 0xCE, CHR 0xCF, CHR 0xD0, CHR 0xD1, CHR 0xD2, CHR 0xD3, CHR 0xD4,
                          CHR 0xD5, CHR 0xD6, CHR 0xD8, CHR 0xD9, CHR 0xDA, CHR 0xDB, CHR 0xDC,
                          CHR 0xDD, CHR 0xDE])
                      (''abcdefghijklmnopqrstuvwxyz''
                       @ [CHR 0xE0, CHR 0xE1, CHR 0xE2, CHR 0xE3, CHR 0xE4, CHR 0xE5, CHR 0xE6,
                          CHR 0xE7, CHR 0xE8, CHR 0xE9, CHR 0xEA, CHR 0xEB, CHR 0xEC, CHR 0xED,
                          CHR 0xEE, CHR 0xEF, CHR 0xF0, CHR 0xF1, CHR 0xF2, CHR 0xF3, CHR 0xF4,
                          CHR 0xF5, CHR 0xF6, CHR 0xF8, CHR 0xF9, CHR 0xFA, CHR 0xFB, CHR 0xFC,
                          CHR 0xFD, CHR 0xFE])) c of
                 Some l \<Rightarrow> l
               | None \<Rightarrow> c)
         else c)"

definition toLowerCase :: "string \<Rightarrow> string" where
  "toLowerCase s = map lowerChar s"

text \<open>
  The white space of \<open>\s\<close> and of \<open>trim()\<close>: tab, line feed, vertical tab, form feed,
  carriage return, space and the no-break space.
\<close>

definition isSpace :: "char \<Rightarrow> bool" where
  "isSpace c = (let n = (of_char c :: nat) in (9 \<le> n \<and> n \<le> 13) \<or> n = 32 \<or> n = 160)"

definition trim :: "string \<Rightarrow> string" where
  "trim s = rev (dropWhile isSpace (rev (dropWhile isSpace s)))"

section \<open>identityRegistry.ts\<close>

text \<open>
  Timestamps are milliseconds since the epoch (\<open>Date.now()\<close>); the ISO-8601 text that
  \<open>toISOString()\<close> renders for a record field is represented by the same number.
\<close>

record IdentityRecord =
  wallet :: string
  carvId :: string
  agentId :: string
  alias' :: "string option"
  registeredAt :: int
  lastVerifiedAt :: int
  totalVerifications :: nat

text \<open>
  The three \<open>Map\<close>s of the class.  A record object lives in \<open>walletToIdentity\<close> under
  exactly one key, so the key is the address of the stored object: mutating the object
  that \<open>walletToIdentity.get(k)\<close> returned is an update of the map at \<open>k\<close>.
\<close>

record IdentityRegistry =
  walletToIdentity :: "string \<rightharpoonup> IdentityRecord"
  carvIdToWallet :: "string \<rightharpoonup> string"
  agentIdToWallet :: "string \<rightharpoonup> string"

definition emptyRegistry :: IdentityRegistry where
  "emptyRegistry =
     \<lparr>walletToIdentity = Map.empty, carvIdToWallet = Map.empty, agentIdToWallet = Map.empty\<rparr>"

text \<open>
  The three \<open>throw new Error(...)\<close> of the registry, all of them the spec's ConflictError:
  the wallet is bound to another pair; the CARV ID is linked to another wallet; the agent
  ID is linked to another wallet.
\<close>

datatype registry_error = WalletPairConflict | CarvIdLinkedElsewhere | AgentIdLinkedElsewhere

record identity_input =
  in_wallet :: string
  in_carvId :: string
  in_agentId :: string
  in_alias :: "string option"

text \<open>
  \<open>owner && owner !== walletKey\<close>: an absent owner is falsy, and so is the empty string.
\<close>

definition ownedByOther :: "(string \<rightharpoonup> string) \<Rightarrow> string \<Rightarrow> string \<Rightarrow> bool" where
  "ownedByOther m key walletKey =
     (case m key of None \<Rightarrow> False | Some owner \<Rightarrow> owner \<noteq> [] \<and> owner \<noteq> walletKey)"

definition pairDiffers :: "IdentityRecord \<Rightarrow> string \<Rightarrow> string \<Rightarrow> bool" where
  "pairDiffers existing carvKey agentKey =
     (toLowerCase (carvId existing) \<noteq> carvKey \<or> toLowerCase (agentId existing) \<noteq> agentKey)"

definition assertCanLink ::
  "IdentityRegistry \<Rightarrow> identity_input \<Rightarrow> registry_error + IdentityRecord option" where
  "assertCanLink reg inp =
     (let walletKey = toLowerCase (in_wallet inp);
          carvKey = toLowerCase (in_carvId inp);
          agentKey = toLowerCase (in_agentId inp)
      in case walletToIdentity reg walletKey of
           Some existing \<Rightarrow>
             if pairDiffers existing carvKey agentKey then Inl WalletPairConflict
             else Inr (Some existing)
         | None \<Rightarrow>
             if ownedByOther (carvIdToWallet reg) carvKey walletKey then Inl CarvIdLinkedElsewhere
             else if ownedByOther (agentIdToWallet reg) agentKey walletKey
               then Inl AgentIdLinkedElsewhere
             else Inr None)"

definition touchIdentity :: "int \<Rightarrow> IdentityRecord \<Rightarrow> IdentityRecord" where
  "touchIdentity now record =
     record\<lparr>lastVerifiedAt := now, totalVerifications := totalVerifications record + 1\<rparr>"

text \<open>
  \<open>input.alias ?? existing.alias\<close>: only an absent alias falls through.  \<open>persist()\<close>
  writes the maps to a file and catches its own errors; the maps are the state here.
\<close>

definition nullish :: "'a option \<Rightarrow> 'a option \<Rightarrow> 'a option" where
  "nullish a b = (case a of Some x \<Rightarrow> Some x | None \<Rightarrow> b)"

definition registerIdentity ::
  "int \<Rightarrow> IdentityRegistry \<Rightarrow> identity_input \<Rightarrow>
     (registry_error + IdentityRecord) \<times> IdentityRegistry" where
  "registerIdentity now reg inp =
     (let walletKey = toLowerCase (in_wallet inp);
          carvKey = toLowerCase (in_carvId inp);
          agentKey = toLowerCase (in_agentId inp)
      in case walletToIdentity reg walletKey of
           Some existing \<Rightarrow>
             if pairDiffers existing carvKey agentKey then (Inl WalletPairConflict, reg)
             else
               let updated =
                     touchIdentity now (existing\<lparr>alias' := nullish (in_alias inp) (alias' existing)\<rparr>)
               in (Inr updated,
                   reg\<lparr>walletToIdentity := (walletToIdentity reg)(walletKey \<mapsto> updated)\<rparr>)
         | None \<Rightarrow>
             (case assertCanLink reg inp of
                Inl e \<Rightarrow> (Inl e, reg)
              | Inr _ \<Rightarrow>
                  let record =
                        \<lparr>wallet = in_wallet inp, carvId = in_carvId inp, agentId = in_agentId inp,
                         alias' = in_alias inp, registeredAt = now, lastVerifiedAt = now,
                         totalVerifications = 1\<rparr>
                  in (Inr record,
                      \<lparr>walletToIdentity = (walletToIdentity reg)(walletKey \<mapsto> record),
                       carvIdToWallet = (carvIdToWallet reg)(carvKey \<mapsto> walletKey),
                       agentIdToWallet = (agentIdToWallet reg)(agentKey \<mapsto> walletKey)\<rparr>)))"

text \<open>
  The public \<open>touchIdentity(record)\<close> called on the record object stored under \<open>key\<close>;
  a record object that is not in the registry leaves the registry as it is.
\<close>

definition touchStored :: "int \<Rightarrow> IdentityRegistry \<Rightarrow> string \<Rightarrow> IdentityRegistry" where
  "touchStored now reg key =
     (case walletToIdentity reg key of
        None \<Rightarrow> reg
      | Some record \<Rightarrow>
          reg\<lparr>walletToIdentity := (walletToIdentity reg)(key \<mapsto> touchIdentity now record)\<rparr>)"

datatype registry_op =
    AssertCanLink identity_input
  | RegisterIdentity int identity_input
  | TouchIdentity int string

fun applyOp :: "IdentityRegistry \<Rightarrow> registry_op \<Rightarrow> IdentityRegistry" where
  "applyOp reg (AssertCanLink inp) = reg"
| "applyOp reg (RegisterIdentity now inp) = snd (registerIdentity now reg inp)"
| "applyOp reg (TouchIdentity now key) = touchStored now reg key"

definition runOps :: "registry_op list \<Rightarrow> IdentityRegistry" where
  "runOps ops = foldl applyOp emptyRegistry ops"

text \<open>The wallet that a \<open>registerIdentity\<close> call binds is not the empty string.\<close>

fun opWalletNonEmpty :: "registry_op \<Rightarrow> bool" where
  "opWalletNonEmpty (AssertCanLink inp) = True"
| "opWalletNonEmpty (RegisterIdentity now inp) = (in_wallet inp \<noteq> [])"
| "opWalletNonEmpty (TouchIdentity now key) = True"


text \<open>
  The invariant behind the uniqueness of bindings: every stored record sits under a
  non-empty wallet key, and both indexes send its lower-cased identifiers to that key.
\<close>

definition regInv :: "IdentityRegistry \<Rightarrow> bool" where
  "regInv reg =
     (\<forall>k r. walletToIdentity reg k = Some r \<longrightarrow>
        k \<noteq> [] \<and> carvIdToWallet reg (toLowerCase (carvId r)) = Some k
          \<and> agentIdToWallet reg (toLowerCase (agentId r)) = Some k)"

section \<open>authService.ts\<close>

text \<open>
  The libraries the service calls, taken as parameters: \<open>publicKeyBase58 w\<close> is
  \<open>new PublicKey(w).toBase58()\<close>, \<open>None\<close> when the constructor throws;
  \<open>bs58Decode\<close> is \<open>bs58.decode\<close>, \<open>None\<close> when it throws; \<open>ed25519Verify\<close> is the
  signature check inside \<open>nacl.sign.detached.verify\<close> (message, signature bytes, wallet);
  \<open>isoString\<close> is \<open>Date.prototype.toISOString\<close>; \<open>sha256Hex\<close> is
  \<open>crypto.createHash("sha256").update(s).digest("hex")\<close>.
\<close>

record extern =
  publicKeyBase58 :: "string \<Rightarrow> string option"
  bs58Decode :: "string \<Rightarrow> nat list option"
  ed25519Verify :: "string \<Rightarrow> nat list \<Rightarrow> string \<Rightarrow> bool"
  isoString :: "int \<Rightarrow> string"
  sha256Hex :: "string \<Rightarrow> string"

text \<open>
  A field name that several types of the source share (\<open>wallet\<close>, \<open>carvId\<close>,
  \<open>agentId\<close>, \<open>alias\<close>, \<open>questId\<close>, \<open>score\<close>, ...) keeps its name in the first record and
  carries a prefix in the others.
\<close>

record WalletChallenge =
  ch_wallet :: string
  ch_carvId :: string
  ch_agentId :: string
  ch_alias :: "string option"
  ch_nonce :: string
  ch_message :: string
  ch_expiresAt :: string
  expiresAtTs :: int

record WalletSession =
  token :: string
  s_wallet :: string
  s_carvId :: string
  s_agentId :: string
  s_alias :: "string option"
  issuedAt :: int
  expiresAt :: int

record AuthService =
  identityRegistry :: IdentityRegistry
  sessionTtlMinutes :: int
  challengeTtlMinutes :: int
  challenges :: "string \<rightharpoonup> WalletChallenge"
  sessions :: "string \<rightharpoonup> WalletSession"

text \<open>
  One constructor for each \<open>throw\<close> that can leave the service, in the order of the source.
  In the spec's taxonomy: the first four are ValidationError, \<open>ChallengeNotFound\<close>
  ("Challenge not found or expired. Request a new one.") is NotFoundError,
  \<open>NonceMismatch\<close> and \<open>IdentityMismatch\<close> are MismatchError, \<open>ChallengeExpired\<close>
  ("Challenge expired. Request a new one.") is ExpiredError, \<open>BadSignatureSize\<close> (thrown by
  \<open>nacl\<close> for a signature that is not 64 bytes long) and \<open>SignatureVerificationFailed\<close> are
  SignatureError, \<open>IdentityConflict\<close> is ConflictError, \<open>SessionInvalid\<close> is
  InvalidSessionError.
\<close>

datatype auth_error =
    InvalidWallet
  | InvalidCarvId
  | InvalidAgentId
  | InvalidSignatureEncoding
  | ChallengeNotFound
  | NonceMismatch
  | IdentityMismatch
  | ChallengeExpired
  | BadSignatureSize
  | SignatureVerificationFailed
  | IdentityConflict registry_error
  | SessionInvalid

text \<open>\<open>/^carv_[a-z0-9]{4,64}$/i\<close> and \<open>/^agent_[a-z0-9]{4,64}$/i\<close>.\<close>

definition isAlnum :: "char \<Rightarrow> bool" where
  "isAlnum c =
     (let n = (of_char c :: nat)
      in (48 \<le> n \<and> n \<le> 57) \<or> (65 \<le> n \<and> n \<le> 90) \<or> (97 \<le> n \<and> n \<le> 122))"

definition matchesId :: "string \<Rightarrow> string \<Rightarrow> bool" where
  "matchesId prefix s =
     (let body = drop (length prefix) s
      in toLowerCase (take (length prefix) s) = prefix
         \<and> 4 \<le> length body \<and> length body \<le> 64 \<and> list_all isAlnum body)"

definition CARV_ID_REGEXP :: "string \<Rightarrow> bool" where
  "CARV_ID_REGEXP s = matchesId ''carv_'' s"

definition AGENT_ID_REGEXP :: "string \<Rightarrow> bool" where
  "AGENT_ID_REGEXP s = matchesId ''agent_'' s"

definition sanitizeAlias :: "string option \<Rightarrow> string option" where
  "sanitizeAlias a =
     (case a of
        None \<Rightarrow> None
      | Some s \<Rightarrow>
          if s = [] then None
          else let trimmed = trim s in if trimmed = [] then None else Some (take 40 trimmed))"

definition validateWallet :: "extern \<Rightarrow> string \<Rightarrow> auth_error + string" where
  "validateWallet lib w =
     (case publicKeyBase58 lib w of None \<Rightarrow> Inl InvalidWallet | Some b \<Rightarrow> Inr b)"

definition validateCarvId :: "string \<Rightarrow> auth_error + string" where
  "validateCarvId c = (if c = [] \<or> \<not> CARV_ID_REGEXP c then Inl InvalidCarvId else Inr c)"

definition validateAgentId :: "string \<Rightarrow> auth_error + string" where
  "validateAgentId a = (if a = [] \<or> \<not> AGENT_ID_REGEXP a then Inl InvalidAgentId else Inr a)"

definition joinLines :: "string list \<Rightarrow> string" where
  "joinLines ls = (case ls of [] \<Rightarrow> [] | l # rest \<Rightarrow> foldl (\<lambda>acc x. acc @ [CHR 0x0A] @ x) l rest)"

record challenge_input =
  ci_wallet :: string
  ci_carvId :: string
  ci_agentId :: string
  ci_alias :: "string option"

text \<open>
  \<open>requestChallenge\<close>: \<open>issuedNow\<close> is \<open>new Date()\<close> in the message, \<open>expiryNow\<close> is the
  \<open>Date.now()\<close> that the expiry is counted from, \<open>nonce\<close> is \<open>randomBase58(16)\<close>.  The middle dot of the first line is U+00B7; the
  dash of the alias fallback (U+2014) is written as the low byte of its code unit.
\<close>

definition requestChallenge ::
  "extern \<Rightarrow> int \<Rightarrow> int \<Rightarrow> string \<Rightarrow> AuthService \<Rightarrow> challenge_input \<Rightarrow>
     (auth_error + WalletChallenge) \<times> AuthService" where
  "requestChallenge lib issuedNow expiryNow nonce svc inp =
     (case validateWallet lib (ci_wallet inp) of Inl e \<Rightarrow> (Inl e, svc) | Inr w \<Rightarrow>
      case validateCarvId (ci_carvId inp) of Inl e \<Rightarrow> (Inl e, svc) | Inr c \<Rightarrow>
      case validateAgentId (ci_agentId inp) of Inl e \<Rightarrow> (Inl e, svc) | Inr a \<Rightarrow>
      let al = sanitizeAlias (ci_alias inp) in
      case assertCanLink (identityRegistry svc)
             \<lparr>in_wallet = w, in_carvId = c, in_agentId = a, in_alias = None\<rparr> of
        Inl e \<Rightarrow> (Inl (IdentityConflict e), svc)
      | Inr identity \<Rightarrow>
          let shownAlias = nullish al (case identity of None \<Rightarrow> None | Some r \<Rightarrow> alias' r);
              message = joinLines
                [''AgentQuest '' @ [CHR 0xB7] @ '' Wallet Login'',
                 ''Wallet: '' @ w,
                 ''CARV ID: '' @ c,
                 ''Agent ID: '' @ a,
                 ''Alias: '' @ (case shownAlias of Some x \<Rightarrow> x
                                | None \<Rightarrow> [CHR 0x14]),
                 ''Nonce: '' @ nonce,
                 ''Issued At: '' @ isoString lib issuedNow];
              ts = expiryNow + challengeTtlMinutes svc * 60000;
              payload = \<lparr>ch_wallet = w, ch_carvId = c, ch_agentId = a, ch_alias = shownAlias,
                         ch_nonce = nonce, ch_message = message,
                         ch_expiresAt = isoString lib ts, expiresAtTs = ts\<rparr>
          in (Inr payload, svc\<lparr>challenges := (challenges svc)(toLowerCase w \<mapsto> payload)\<rparr>))"

definition dropExpiredChallenges :: "int \<Rightarrow> AuthService \<Rightarrow> AuthService" where
  "dropExpiredChallenges now svc =
     svc\<lparr>challenges := (\<lambda>key. case challenges svc key of
                                  None \<Rightarrow> None
                                | Some challenge \<Rightarrow>
                                    if expiresAtTs challenge < now then None else Some challenge)\<rparr>"

text \<open>\<open>createSession\<close>: \<open>now\<close> is \<open>new Date()\<close>, \<open>tok\<close> is \<open>randomBase58(24)\<close>.\<close>

definition createSession ::
  "int \<Rightarrow> string \<Rightarrow> AuthService \<Rightarrow> IdentityRecord \<Rightarrow> WalletSession \<times> AuthService" where
  "createSession now tok svc identity =
     (let session = \<lparr>token = tok, s_wallet = wallet identity, s_carvId = carvId identity,
                      s_agentId = agentId identity, s_alias = alias' identity, issuedAt = now,
                      expiresAt = now + sessionTtlMinutes svc * 60000\<rparr>
      in (session, svc\<lparr>sessions := (sessions svc)(tok \<mapsto> session)\<rparr>))"

record verify_input =
  vi_wallet :: string
  vi_carvId :: string
  vi_agentId :: string
  vi_signature :: string
  vi_nonce :: string

text \<open>
  What one call of \<open>verifyChallenge\<close> reads from its environment, in the order of the
  reads: \<open>Date.now()\<close> in \<open>dropExpiredChallenges\<close>, \<open>Date.now()\<close> in the expiry check,
  \<open>new Date()\<close> in the registry, \<open>new Date()\<close> and \<open>randomBase58(24)\<close> in
  \<open>createSession\<close>.  The second \<open>new PublicKey(wallet)\<close> of the function parses the
  text that \<open>validateWallet\<close> has just rendered from a key; \<open>nacl\<close> throws on a signature
  that is not 64 bytes long before it verifies.
\<close>

record verify_env =
  sweepNow :: int
  checkNow :: int
  registerNow :: int
  sessionNow :: int
  randomToken :: string

definition verifyChallenge ::
  "extern \<Rightarrow> verify_env \<Rightarrow> AuthService \<Rightarrow> verify_input \<Rightarrow>
     (auth_error + WalletSession) \<times> AuthService" where
  "verifyChallenge lib env svc inp =
     (case validateWallet lib (vi_wallet inp) of Inl e \<Rightarrow> (Inl e, svc) | Inr w \<Rightarrow>
      case validateCarvId (vi_carvId inp) of Inl e \<Rightarrow> (Inl e, svc) | Inr c \<Rightarrow>
      case validateAgentId (vi_agentId inp) of Inl e \<Rightarrow> (Inl e, svc) | Inr a \<Rightarrow>
      case bs58Decode lib (vi_signature inp) of
        None \<Rightarrow> (Inl InvalidSignatureEncoding, svc)
      | Some signatureBytes \<Rightarrow>
          let svc1 = dropExpiredChallenges (sweepNow env) svc in
          case challenges svc1 (toLowerCase w) of
            None \<Rightarrow> (Inl ChallengeNotFound, svc1)
          | Some challenge \<Rightarrow>
              if ch_nonce challenge \<noteq> vi_nonce inp then (Inl NonceMismatch, svc1)
              else if toLowerCase (ch_carvId challenge) \<noteq> toLowerCase c
                      \<or> toLowerCase (ch_agentId challenge) \<noteq> toLowerCase a
                then (Inl IdentityMismatch, svc1)
              else if expiresAtTs challenge < checkNow env
                then (Inl ChallengeExpired,
                      svc1\<lparr>challenges := (challenges svc1)(toLowerCase w := None)\<rparr>)
              else if length signatureBytes \<noteq> 64 then (Inl BadSignatureSize, svc1)
              else if \<not> ed25519Verify lib (ch_message challenge) signatureBytes w
                then (Inl SignatureVerificationFailed, svc1)
              else
                (case registerIdentity (registerNow env) (identityRegistry svc1)
                        \<lparr>in_wallet = w, in_carvId = c, in_agentId = a,
                         in_alias = ch_alias challenge\<rparr> of
                   (Inl e, reg) \<Rightarrow> (Inl (IdentityConflict e), svc1\<lparr>identityRegistry := reg\<rparr>)
                 | (Inr identity, reg) \<Rightarrow>
                     let (session, svc2) =
                           createSession (sessionNow env) (randomToken env)
                             (svc1\<lparr>identityRegistry := reg\<rparr>) identity
                     in (Inr session,
                         svc2\<lparr>challenges := (challenges svc2)(toLowerCase w := None)\<rparr>)))"

text \<open>\<open>getSession\<close> deletes a session it finds expired; \<open>assertSession\<close> throws on none.\<close>

definition getSession :: "int \<Rightarrow> AuthService \<Rightarrow> string \<Rightarrow> WalletSession option \<times> AuthService" where
  "getSession now svc tok =
     (case sessions svc tok of
        None \<Rightarrow> (None, svc)
      | Some session \<Rightarrow>
          if expiresAt session < now then (None, svc\<lparr>sessions := (sessions svc)(tok := None)\<rparr>)
          else (Some session, svc))"

definition assertSession ::
  "int \<Rightarrow> AuthService \<Rightarrow> string \<Rightarrow> (auth_error + WalletSession) \<times> AuthService" where
  "assertSession now svc tok =
     (case getSession now svc tok of
        (None, svc1) \<Rightarrow> (Inl SessionInvalid, svc1)
      | (Some session, svc1) \<Rightarrow> (Inr session, svc1))"


section \<open>rateLimiter.ts\<close>

definition SUBMISSION_WINDOW_MS :: int where
  "SUBMISSION_WINDOW_MS = 60000"

fun showNat :: "nat \<Rightarrow> string" where
  "showNat n =
     (if n < 10 then [''0123456789'' ! n]
      else showNat (n div 10) @ [''0123456789'' ! (n mod 10)])"

declare showNat.simps [simp del]

definition showInt :: "int \<Rightarrow> string" where
  "showInt i = (if i < 0 then CHR ''-'' # showNat (nat (- i)) else showNat (nat i))"

record rate_limit_result =
  allowed :: bool
  message :: "string option"

text \<open>
  \<open>recentSubmissions\<close> is the module's \<open>Map\<close>, \<open>now\<close> is \<open>Date.now()\<close>.  In
  \<open>lastSubmission && now - lastSubmission < SUBMISSION_WINDOW_MS\<close> an absent entry is
  falsy, and so is the number 0.  \<open>Math.ceil(x / 1000)\<close> is \<open>- ((- x) div 1000)\<close>.
\<close>

definition checkUserQuestRateLimit ::
  "int \<Rightarrow> (string \<rightharpoonup> int) \<Rightarrow> string \<Rightarrow> string \<Rightarrow> rate_limit_result \<times> (string \<rightharpoonup> int)" where
  "checkUserQuestRateLimit now recentSubmissions questId userId =
     (let key = toLowerCase (questId @ '':'' @ userId);
          lastSubmission = recentSubmissions key
      in case lastSubmission of
           Some l \<Rightarrow>
             if l \<noteq> 0 \<and> now - l < SUBMISSION_WINDOW_MS
             then
               let waitSeconds = - ((- (SUBMISSION_WINDOW_MS - (now - l))) div 1000)
               in (\<lparr>allowed = False,
                    message = Some (''Wait '' @ showInt waitSeconds
                                      @ '' seconds before the next attempt.'')\<rparr>,
                   recentSubmissions)
             else (\<lparr>allowed = True, message = None\<rparr>, recentSubmissions(key \<mapsto> now))
         | None \<Rightarrow> (\<lparr>allowed = True, message = None\<rparr>, recentSubmissions(key \<mapsto> now)))"

definition clearExpiredSubmissions :: "int \<Rightarrow> (string \<rightharpoonup> int) \<Rightarrow> (string \<rightharpoonup> int)" where
  "clearExpiredSubmissions now recentSubmissions =
     (\<lambda>key. case recentSubmissions key of
               None \<Rightarrow> None
             | Some timestamp \<Rightarrow>
                 if timestamp < now - SUBMISSION_WINDOW_MS then None else Some timestamp)"

section \<open>quests.ts, types.ts, submissionHistory.ts\<close>

text \<open>The fields of a quest that the submission service reads.\<close>

record Quest =
  q_id :: string
  q_title :: string
  minAnswerLength :: nat
  maxAnswerLength :: nat
  previewLimit :: nat

definition quests :: "Quest list" where
  "quests =
     [\<lparr>q_id = ''summarize-news'', q_title = ''Summarize a news article in 3 sentences'',
       minAnswerLength = 160, maxAnswerLength = 1200, previewLimit = 150\<rparr>,
      \<lparr>q_id = ''sql-aggregate'', q_title = ''SQL: calculate revenue by country'',
       minAnswerLength = 80, maxAnswerLength = 1000, previewLimit = 110\<rparr>,
      \<lparr>q_id = ''unit-test'', q_title = ''Write a unit test for a function'',
       minAnswerLength = 120, maxAnswerLength = 1800, previewLimit = 160\<rparr>,
      \<lparr>q_id = ''api-error-handling'', q_title = ''API: outline an error-handling plan'',
       minAnswerLength = 140, maxAnswerLength = 1000, previewLimit = 150\<rparr>,
      \<lparr>q_id = ''prompt-guardrails'', q_title = ''Design guardrails for an LLM'',
       minAnswerLength = 220, maxAnswerLength = 1600, previewLimit = 180\<rparr>,
      \<lparr>q_id = ''debug-log'', q_title = ''Find a bug via logs'',
       minAnswerLength = 110, maxAnswerLength = 900, previewLimit = 150\<rparr>]"

definition questMap :: "string \<rightharpoonup> Quest" where
  "questMap = map_of (map (\<lambda>quest. (q_id quest, quest)) quests)"

record EvaluationResult =
  ev_score :: int
  ev_reasoning :: string
  ev_usedLLM :: bool

datatype RewardReceipt =
    RewardMinted string string string string string
  | RewardSkipped string string string string
  | RewardFailed string string string string

datatype MemoResult =
    MemoSubmitted string string bool
  | MemoSkipped string
  | MemoFailed string

datatype chain_status = StatusSubmitted | StatusSkipped | StatusFailed

fun memoStatus :: "MemoResult \<Rightarrow> chain_status" where
  "memoStatus (MemoSubmitted signature url verified) = StatusSubmitted"
| "memoStatus (MemoSkipped msg) = StatusSkipped"
| "memoStatus (MemoFailed msg) = StatusFailed"

record ProofPayload =
  p_questId :: string
  p_wallet :: string
  p_carvId :: string
  p_agentId :: string
  p_userId :: string
  p_displayName :: string
  p_score :: int
  p_timestamp :: string
  p_answerPreview :: string

record SubmissionResponse =
  r_questId :: string
  r_questTitle :: string
  r_userId :: string
  r_displayName :: string
  r_wallet :: string
  r_carvId :: string
  r_agentId :: string
  r_score :: int
  r_reasoning :: string
  r_timestamp :: string
  r_answerPreview :: string
  proofHash :: string
  transactionSignature :: "string option"
  explorerUrl :: "string option"
  memoText :: "string option"
  usedLLM :: bool
  onChainStatus :: chain_status
  onChainVerified :: "bool option"
  onChainMessage :: "string option"
  reward :: "RewardReceipt option"

record SubmissionHistory =
  maxEntriesPerUser :: nat
  storage :: "string \<rightharpoonup> SubmissionResponse list"

definition recordSubmission ::
  "SubmissionHistory \<Rightarrow> string \<Rightarrow> SubmissionResponse \<Rightarrow> SubmissionHistory" where
  "recordSubmission h w entry =
     (let key = toLowerCase w;
          existing = (case storage h key of None \<Rightarrow> [] | Some es \<Rightarrow> es);
          updated = take (maxEntriesPerUser h) (entry # existing)
      in h\<lparr>storage := (storage h)(key \<mapsto> updated)\<rparr>)"

section \<open>submissionService.ts\<close>

record SubmissionInput =
  questId :: string
  sessionToken :: string
  displayName :: "string option"
  answer :: string

text \<open>
  \<open>SubmissionSchema.safeParse\<close> on an object whose fields are strings: each field is
  trimmed and then measured; the messages of the fields that fail, in the order of the
  schema.
\<close>

definition schemaIssues :: "SubmissionInput \<Rightarrow> string list" where
  "schemaIssues raw =
     (if length (trim (questId raw)) < 1 then [''Select a quest''] else [])
     @ (if length (trim (sessionToken raw)) < 10 then [''Reconnect your wallet.''] else [])
     @ (case displayName raw of
          None \<Rightarrow> []
        | Some d \<Rightarrow>
            if length (trim d) < 2 then [''Display name must be at least 2 characters long'']
            else if 80 < length (trim d) then [''Display name is too long'']
            else [])
     @ (if length (trim (answer raw)) < 10 then [''Answer is too short'']
        else if 4000 < length (trim (answer raw)) then [''Answer is too long'']
        else [])"

definition joinWith :: "string \<Rightarrow> string list \<Rightarrow> string" where
  "joinWith sep ls = (case ls of [] \<Rightarrow> [] | l # rest \<Rightarrow> foldl (\<lambda>acc x. acc @ sep @ x) l rest)"

datatype submit_error =
    ValidationFailed string
  | SessionRejected
  | QuestNotFound
  | AnswerBelowMinimum nat
  | AnswerAboveMaximum nat
  | RateLimited string

definition safeParse :: "SubmissionInput \<Rightarrow> submit_error + SubmissionInput" where
  "safeParse raw =
     (if schemaIssues raw \<noteq> [] then Inl (ValidationFailed (joinWith ''. '' (schemaIssues raw)))
      else Inr \<lparr>questId = trim (questId raw), sessionToken = trim (sessionToken raw),
                displayName = map_option trim (displayName raw), answer = trim (answer raw)\<rparr>)"

function collapseSpaces :: "string \<Rightarrow> string" where
  "collapseSpaces [] = []"
| "collapseSpaces (c # cs) =
     (if isSpace c then CHR '' '' # collapseSpaces (dropWhile isSpace cs)
      else c # collapseSpaces cs)"
  by pat_completeness auto
termination
  by (relation "measure length") (auto simp: le_imp_less_Suc length_dropWhile_le)

text \<open>
  The truncation mark that the template literal of \<open>formatPreview\<close> puts after the slice.
  In \<open>submissionService.ts\<close> it is the three code units U+00E2, U+20AC, U+00A6 (an
  ellipsis read in the wrong encoding), each written here as its low byte; the compiled
  build carries the one code unit U+2026.  The properties below use only that the mark is
  not empty.
\<close>

definition previewSuffix :: string where
  "previewSuffix = [CHR 0xE2, CHR 0xAC, CHR 0xA6]"

definition formatPreview :: "string \<Rightarrow> nat \<Rightarrow> string" where
  "formatPreview text limit =
     (let sanitized = trim (collapseSpaces text)
      in if length sanitized \<le> limit then sanitized
         else take limit sanitized @ previewSuffix)"

text \<open>\<open>buildProofPayload\<close>: \<open>ts\<close> is \<open>new Date().toISOString()\<close>.\<close>

definition buildProofPayload ::
  "string \<Rightarrow> Quest \<Rightarrow> WalletSession \<Rightarrow> string \<Rightarrow> string \<Rightarrow> int \<Rightarrow> ProofPayload" where
  "buildProofPayload ts quest session name ans score =
     \<lparr>p_questId = q_id quest, p_wallet = s_wallet session, p_carvId = s_carvId session,
      p_agentId = s_agentId session, p_userId = name, p_displayName = name, p_score = score,
      p_timestamp = ts, p_answerPreview = formatPreview ans (previewLimit quest)\<rparr>"

text \<open>\<open>JSON.stringify\<close> of a string and of the payload object, keys in insertion order.\<close>

definition hexDigit :: "nat \<Rightarrow> char" where
  "hexDigit n = ''0123456789abcdef'' ! (n mod 16)"

definition jsonEscape :: "char \<Rightarrow> string" where
  "jsonEscape c =
     (let n = (of_char c :: nat)
      in if n = 8 then [CHR 0x5C, CHR ''b''] else if n = 9 then [CHR 0x5C, CHR ''t''] else if n = 10 then [CHR 0x5C, CHR ''n'']
         else if n = 12 then [CHR 0x5C, CHR ''f''] else if n = 13 then [CHR 0x5C, CHR ''r'']
         else if n = 34 then [CHR 0x5C, CHR 0x22] else if n = 92 then [CHR 0x5C, CHR 0x5C]
         else if n < 32 then [CHR 0x5C] @ ''u00'' @ [hexDigit (n div 16), hexDigit n]
         else [c])"

definition jsonString :: "string \<Rightarrow> string" where
  "jsonString s = [CHR 0x22] @ concat (map jsonEscape s) @ [CHR 0x22]"

definition jsonMember :: "string \<Rightarrow> string \<Rightarrow> string" where
  "jsonMember key rendered = jsonString key @ '':'' @ rendered"

definition serializePayload :: "ProofPayload \<Rightarrow> string" where
  "serializePayload payload =
     ''{'' @ joinWith '',''
       [jsonMember ''questId'' (jsonString (p_questId payload)),
        jsonMember ''wallet'' (jsonString (p_wallet payload)),
        jsonMember ''carvId'' (jsonString (p_carvId payload)),
        jsonMember ''agentId'' (jsonString (p_agentId payload)),
        jsonMember ''userId'' (jsonString (p_userId payload)),
        jsonMember ''displayName'' (jsonString (p_displayName payload)),
        jsonMember ''score'' (showInt (p_score payload)),
        jsonMember ''timestamp'' (jsonString (p_timestamp payload)),
        jsonMember ''answerPreview'' (jsonString (p_answerPreview payload))]
     @ ''}''"

definition hashPayload :: "extern \<Rightarrow> ProofPayload \<Rightarrow> string" where
  "hashPayload lib payload = sha256Hex lib (serializePayload payload)"


text \<open>
  The state that \<open>submit\<close> reads and writes: the sessions of the \<open>AuthService\<close>, the
  \<open>recentSubmissions\<close> of the rate limiter and the optional history.
\<close>

record SubmissionService =
  authService :: AuthService
  recentSubmissions :: "string \<rightharpoonup> int"
  history :: "SubmissionHistory option"

text \<open>
  What one call of \<open>submit\<close> takes from its environment: \<open>Date.now()\<close> in \<open>getSession\<close>
  and in the rate limiter, the evaluator, \<open>new Date().toISOString()\<close> in
  \<open>buildProofPayload\<close>, and what the memo client and the reward service return.
\<close>

record submit_env =
  sessionCheckNow :: int
  rateLimitNow :: int
  evaluateAnswer :: "Quest \<Rightarrow> string \<Rightarrow> EvaluationResult"
  payloadTimestamp :: string
  submitMemo :: "string \<Rightarrow> MemoResult"
  distributeReward :: "string \<Rightarrow> int \<Rightarrow> RewardReceipt"

text \<open>\<open>a || b\<close> on strings: the empty string is falsy.\<close>

definition orElse :: "string option \<Rightarrow> string \<Rightarrow> string" where
  "orElse a b = (case a of None \<Rightarrow> b | Some x \<Rightarrow> if x \<noteq> [] then x else b)"

text \<open>
  Lines 70 to 98 of \<open>submit\<close>: schema, session, quest lookup, the quest's length bounds,
  display name, rate limit.  The result is what the rest of the function works with.
\<close>

definition submitChecks ::
  "submit_env \<Rightarrow> SubmissionService \<Rightarrow> SubmissionInput \<Rightarrow>
     (submit_error + SubmissionInput \<times> WalletSession \<times> Quest \<times> string) \<times> SubmissionService" where
  "submitChecks env svc rawInput =
     (case safeParse rawInput of
        Inl e \<Rightarrow> (Inl e, svc)
      | Inr input \<Rightarrow>
          (case assertSession (sessionCheckNow env) (authService svc) (sessionToken input) of
             (Inl e, auth1) \<Rightarrow> (Inl SessionRejected, svc\<lparr>authService := auth1\<rparr>)
           | (Inr session, auth1) \<Rightarrow>
               let svc1 = svc\<lparr>authService := auth1\<rparr> in
               (case questMap (questId input) of
                  None \<Rightarrow> (Inl QuestNotFound, svc1)
                | Some quest \<Rightarrow>
                    if length (answer input) < minAnswerLength quest
                      then (Inl (AnswerBelowMinimum (minAnswerLength quest)), svc1)
                    else if maxAnswerLength quest < length (answer input)
                      then (Inl (AnswerAboveMaximum (maxAnswerLength quest)), svc1)
                    else
                      let name = orElse (map_option trim (displayName input))
                                   (orElse (s_alias session) (s_wallet session));
                          (rateLimitResult, recent1) =
                             checkUserQuestRateLimit (rateLimitNow env) (recentSubmissions svc1)
                               (q_id quest) (s_wallet session);
                          svc2 = svc1\<lparr>recentSubmissions := recent1\<rparr>
                      in if \<not> allowed rateLimitResult
                         then (Inl (RateLimited (case message rateLimitResult of
                                                   Some m \<Rightarrow> m
                                                 | None \<Rightarrow> ''Too many attempts'')), svc2)
                         else (Inr (input, session, quest, name), svc2))))"

definition submit ::
  "extern \<Rightarrow> submit_env \<Rightarrow> SubmissionService \<Rightarrow> SubmissionInput \<Rightarrow>
     (submit_error + SubmissionResponse) \<times> SubmissionService" where
  "submit lib env svc rawInput =
     (case submitChecks env svc rawInput of
        (Inl e, svc1) \<Rightarrow> (Inl e, svc1)
      | (Inr (input, session, quest, name), svc1) \<Rightarrow>
          let evaluation = evaluateAnswer env quest (answer input);
              proofPayload = buildProofPayload (payloadTimestamp env) quest session name
                               (answer input) (ev_score evaluation);
              hash = hashPayload lib proofPayload;
              memo = ''AgentQuest:'' @ hash;
              memoResult = submitMemo env memo;
              response0 =
                \<lparr>r_questId = q_id quest, r_questTitle = q_title quest, r_userId = name,
                 r_displayName = name, r_wallet = s_wallet session, r_carvId = s_carvId session,
                 r_agentId = s_agentId session, r_score = ev_score evaluation,
                 r_reasoning = ev_reasoning evaluation, r_timestamp = p_timestamp proofPayload,
                 r_answerPreview = p_answerPreview proofPayload, proofHash = hash,
                 transactionSignature = None, explorerUrl = None, memoText = Some memo,
                 usedLLM = ev_usedLLM evaluation, onChainStatus = memoStatus memoResult,
                 onChainVerified = (case memoResult of
                                      MemoSubmitted signature url verified \<Rightarrow> Some verified
                                    | MemoSkipped msg \<Rightarrow> None
                                    | MemoFailed msg \<Rightarrow> None),
                 onChainMessage = None, reward = None\<rparr>;
              response1 =
                (case memoResult of
                   MemoSubmitted signature url verified \<Rightarrow>
                     response0\<lparr>transactionSignature := Some signature, explorerUrl := Some url\<rparr>
                 | MemoSkipped msg \<Rightarrow> response0\<lparr>onChainMessage := Some msg\<rparr>
                 | MemoFailed msg \<Rightarrow> response0\<lparr>onChainMessage := Some msg\<rparr>);
              response = response1\<lparr>reward :=
                           Some (distributeReward env (s_wallet session) (ev_score evaluation))\<rparr>
          in (Inr response,
              svc1\<lparr>history := map_option (\<lambda>h. recordSubmission h (s_wallet session) response)
                                 (history svc1)\<rparr>))"

section \<open>Sample data\<close>

text \<open>
  Concrete inputs on which the theorems below are exercised.  The library functions of
  \<open>sampleLib\<close> are stand-ins with the right types: one wallet parses, one signature
  verifies.
\<close>

abbreviation sampleAnn :: identity_input where
  "sampleAnn \<equiv> \<lparr>in_wallet = ''Wa'', in_carvId = ''carv_aaaa'', in_agentId = ''agent_aaaa'',
                 in_alias = Some ''ann''\<rparr>"

abbreviation sampleBob :: identity_input where
  "sampleBob \<equiv> \<lparr>in_wallet = ''Wb'', in_carvId = ''carv_bbbb'', in_agentId = ''agent_bbbb'',
                 in_alias = None\<rparr>"

abbreviation sampleEve :: identity_input where
  "sampleEve \<equiv> \<lparr>in_wallet = ''Wc'', in_carvId = ''CARV_AAAA'', in_agentId = ''agent_cccc'',
                 in_alias = None\<rparr>"

abbreviation sampleEmptyWallet :: identity_input where
  "sampleEmptyWallet \<equiv> \<lparr>in_wallet = [], in_carvId = ''carv_aaaa'',
                         in_agentId = ''agent_aaaa'', in_alias = None\<rparr>"

abbreviation sampleSecondWallet :: identity_input where
  "sampleSecondWallet \<equiv> \<lparr>in_wallet = ''Wb'', in_carvId = ''carv_aaaa'',
                          in_agentId = ''agent_bbbb'', in_alias = None\<rparr>"

abbreviation sampleAnnFirst :: IdentityRecord where
  "sampleAnnFirst \<equiv> \<lparr>wallet = ''Wa'', carvId = ''carv_aaaa'', agentId = ''agent_aaaa'',
       alias' = Some ''ann'', registeredAt = 1, lastVerifiedAt = 1, totalVerifications = 1\<rparr>"

abbreviation sampleAnnStored :: IdentityRecord where
  "sampleAnnStored \<equiv> \<lparr>wallet = ''Wa'', carvId = ''carv_aaaa'', agentId = ''agent_aaaa'',
       alias' = Some ''ann'', registeredAt = 1, lastVerifiedAt = 3, totalVerifications = 2\<rparr>"

abbreviation sampleBobStored :: IdentityRecord where
  "sampleBobStored \<equiv> \<lparr>wallet = ''Wb'', carvId = ''carv_bbbb'', agentId = ''agent_bbbb'',
       alias' = None, registeredAt = 2, lastVerifiedAt = 2, totalVerifications = 1\<rparr>"

abbreviation sampleOps :: "registry_op list" where
  "sampleOps \<equiv> [RegisterIdentity 1 sampleAnn, RegisterIdentity 2 sampleBob, TouchIdentity 3 ''wa'']"

abbreviation sampleRegistry :: IdentityRegistry where
  "sampleRegistry \<equiv> snd (registerIdentity 1 emptyRegistry sampleAnn)"

abbreviation sampleWallet :: string where
  "sampleWallet \<equiv> ''8ZGZffuCpyaUxpoEqaexfFwaT55dnUGr3hiBkY7b2KV6''"

abbreviation sampleSignature :: "nat list" where
  "sampleSignature \<equiv> replicate 64 7"

abbreviation sampleLib :: extern where
  "sampleLib \<equiv>
     \<lparr>publicKeyBase58 = (\<lambda>w. if w = sampleWallet then Some w else None),
      bs58Decode = (\<lambda>s. if s = ''goodsig'' then Some sampleSignature
                         else if s = ''badsig'' then Some (replicate 64 0) else None),
      ed25519Verify = (\<lambda>msg sg w. sg = sampleSignature),
      isoString = showInt,
      sha256Hex = (\<lambda>s. showNat (length s))\<rparr>"

abbreviation sampleService :: AuthService where
  "sampleService \<equiv>
     \<lparr>identityRegistry = emptyRegistry, sessionTtlMinutes = 360, challengeTtlMinutes = 10,
      challenges = Map.empty, sessions = Map.empty\<rparr>"

abbreviation sampleRequest :: challenge_input where
  "sampleRequest \<equiv> \<lparr>ci_wallet = sampleWallet, ci_carvId = ''carv_demo001'',
                     ci_agentId = ''agent_demo001'', ci_alias = Some ''ann''\<rparr>"

abbreviation samplePending :: AuthService where
  "samplePending \<equiv> snd (requestChallenge sampleLib 1000 1001 ''nonce1'' sampleService sampleRequest)"

abbreviation sampleChallenge :: WalletChallenge where
  "sampleChallenge \<equiv>
     \<lparr>ch_wallet = sampleWallet, ch_carvId = ''carv_demo001'', ch_agentId = ''agent_demo001'',
      ch_alias = Some ''ann'', ch_nonce = ''nonce1'',
      ch_message = joinLines
        [''AgentQuest '' @ [CHR 0xB7] @ '' Wallet Login'', ''Wallet: '' @ sampleWallet,
         ''CARV ID: carv_demo001'', ''Agent ID: agent_demo001'', ''Alias: ann'',
         ''Nonce: nonce1'', ''Issued At: 1000''],
      ch_expiresAt = ''601001'', expiresAtTs = 601001\<rparr>"

abbreviation sampleVerify :: verify_input where
  "sampleVerify \<equiv> \<lparr>vi_wallet = sampleWallet, vi_carvId = ''carv_demo001'',
                    vi_agentId = ''agent_demo001'', vi_signature = ''goodsig'',
                    vi_nonce = ''nonce1''\<rparr>"

abbreviation sampleEnv :: verify_env where
  "sampleEnv \<equiv> \<lparr>sweepNow = 5000, checkNow = 5001, registerNow = 5002, sessionNow = 5003,
                 randomToken = ''token1''\<rparr>"

abbreviation sampleReplayEnv :: verify_env where
  "sampleReplayEnv \<equiv> \<lparr>sweepNow = 6000, checkNow = 6001, registerNow = 6002, sessionNow = 6003,
                       randomToken = ''token2''\<rparr>"

abbreviation sampleLateEnv :: verify_env where
  "sampleLateEnv \<equiv> \<lparr>sweepNow = 700000, checkNow = 700001, registerNow = 700002,
                     sessionNow = 700003, randomToken = ''token1''\<rparr>"

abbreviation sampleSession :: WalletSession where
  "sampleSession \<equiv>
     \<lparr>token = ''token1'', s_wallet = sampleWallet, s_carvId = ''carv_demo001'',
      s_agentId = ''agent_demo001'', s_alias = Some ''ann'', issuedAt = 5003,
      expiresAt = 21605003\<rparr>"

abbreviation sampleQuest :: Quest where
  "sampleQuest \<equiv> \<lparr>q_id = ''sql-aggregate'', q_title = ''SQL: calculate revenue by country'',
                   minAnswerLength = 80, maxAnswerLength = 1000, previewLimit = 110\<rparr>"








section \<open>Properties of the identity registry\<close>

lemma toLowerCase_Nil [simp]: "(toLowerCase s = []) = (s = [])"
  by (simp add: toLowerCase_def)

lemma regInv_empty: "regInv emptyRegistry"
  by (simp add: regInv_def emptyRegistry_def)

lemma regInvD:
  assumes "regInv reg" "walletToIdentity reg k = Some r"
  shows "k \<noteq> []" "carvIdToWallet reg (toLowerCase (carvId r)) = Some k"
    "agentIdToWallet reg (toLowerCase (agentId r)) = Some k"
  using assms unfolding regInv_def by blast+

lemma regInvI:
  assumes "\<And>k r. walletToIdentity reg k = Some r \<Longrightarrow>
     k \<noteq> [] \<and> carvIdToWallet reg (toLowerCase (carvId r)) = Some k
          \<and> agentIdToWallet reg (toLowerCase (agentId r)) = Some k"
  shows "regInv reg"
  using assms unfolding regInv_def by blast

lemma touchIdentity_ids [simp]:
  "carvId (touchIdentity now r) = carvId r" "agentId (touchIdentity now r) = agentId r"
  "wallet (touchIdentity now r) = wallet r" "alias' (touchIdentity now r) = alias' r"
  by (simp_all add: touchIdentity_def)

lemma regInv_touchStored:
  assumes "regInv reg"
  shows "regInv (touchStored now reg key)"
proof (cases "walletToIdentity reg key")
  case None
  with assms show ?thesis by (simp add: touchStored_def)
next
  case (Some stored)
  show ?thesis
  proof (rule regInvI)
    fix k r
    assume "walletToIdentity (touchStored now reg key) k = Some r"
    with Some obtain r0 where "walletToIdentity reg k = Some r0"
      "carvId r = carvId r0" "agentId r = agentId r0"
      by (auto simp: touchStored_def split: if_splits)
    with regInvD[OF assms, of k r0] Some
    show "k \<noteq> [] \<and> carvIdToWallet (touchStored now reg key) (toLowerCase (carvId r)) = Some k
          \<and> agentIdToWallet (touchStored now reg key) (toLowerCase (agentId r)) = Some k"
      by (simp add: touchStored_def)
  qed
qed

lemma regInv_registerIdentity:
  assumes "regInv reg" "in_wallet inp \<noteq> []"
  shows "regInv (snd (registerIdentity now reg inp))"
proof (cases "walletToIdentity reg (toLowerCase (in_wallet inp))")
  case (Some existing)
  show ?thesis
  proof (cases "pairDiffers existing (toLowerCase (in_carvId inp)) (toLowerCase (in_agentId inp))")
    case True
    with Some assms(1) show ?thesis by (simp add: registerIdentity_def Let_def)
  next
    case False
    show ?thesis
    proof (rule regInvI)
      fix k r
      assume "walletToIdentity (snd (registerIdentity now reg inp)) k = Some r"
      with Some False obtain r0 where "walletToIdentity reg k = Some r0"
        "carvId r = carvId r0" "agentId r = agentId r0"
        by (auto simp: registerIdentity_def Let_def split: if_splits)
      with regInvD[OF assms(1), of k r0] Some False
      show "k \<noteq> [] \<and> carvIdToWallet (snd (registerIdentity now reg inp)) (toLowerCase (carvId r)) = Some k
          \<and> agentIdToWallet (snd (registerIdentity now reg inp)) (toLowerCase (agentId r)) = Some k"
        by (simp add: registerIdentity_def Let_def)
    qed
  qed
next
  case None
  show ?thesis
  proof (cases "assertCanLink reg inp")
    case (Inl e)
    with None assms(1) show ?thesis by (simp add: registerIdentity_def Let_def)
  next
    case (Inr x)
    with None have free:
      "\<not> ownedByOther (carvIdToWallet reg) (toLowerCase (in_carvId inp)) (toLowerCase (in_wallet inp))"
      "\<not> ownedByOther (agentIdToWallet reg) (toLowerCase (in_agentId inp)) (toLowerCase (in_wallet inp))"
      by (auto simp: assertCanLink_def Let_def split: if_splits)
    show ?thesis
    proof (rule regInvI)
      fix k r
      assume kr: "walletToIdentity (snd (registerIdentity now reg inp)) k = Some r"
      show "k \<noteq> [] \<and> carvIdToWallet (snd (registerIdentity now reg inp)) (toLowerCase (carvId r)) = Some k
          \<and> agentIdToWallet (snd (registerIdentity now reg inp)) (toLowerCase (agentId r)) = Some k"
      proof (cases "k = toLowerCase (in_wallet inp)")
        case True
        with kr None Inr assms(2) show ?thesis
          by (auto simp: registerIdentity_def Let_def)
      next
        case False
        with kr None Inr have old: "walletToIdentity reg k = Some r"
          by (simp add: registerIdentity_def Let_def)
        from regInvD[OF assms(1) old] free False None Inr show ?thesis
          by (auto simp: registerIdentity_def Let_def ownedByOther_def)
      qed
    qed
  qed
qed

lemma regInv_applyOp: "regInv reg \<Longrightarrow> opWalletNonEmpty op \<Longrightarrow> regInv (applyOp reg op)"
  by (cases op) (simp_all add: regInv_registerIdentity regInv_touchStored)

lemma regInv_foldl:
  "regInv reg \<Longrightarrow> list_all opWalletNonEmpty ops \<Longrightarrow> regInv (foldl applyOp reg ops)"
  by (induction ops arbitrary: reg) (simp_all add: regInv_applyOp)

lemma regInv_runOps: "list_all opWalletNonEmpty ops \<Longrightarrow> regInv (runOps ops)"
  by (simp add: runOps_def regInv_foldl regInv_empty)

lemma regInv_distinct:
  assumes "regInv reg" "walletToIdentity reg k1 = Some r1" "walletToIdentity reg k2 = Some r2"
    "k1 \<noteq> k2"
  shows "toLowerCase (carvId r1) \<noteq> toLowerCase (carvId r2)"
    and "toLowerCase (agentId r1) \<noteq> toLowerCase (agentId r2)"
  using regInvD[OF assms(1,2)] regInvD[OF assms(1,3)] assms(4) by auto

lemma regInv_conflict:
  assumes inv: "regInv reg" and r: "walletToIdentity reg k = Some r"
    and c: "if k = toLowerCase (in_wallet inp)
            then toLowerCase (carvId r) \<noteq> toLowerCase (in_carvId inp)
               \<or> toLowerCase (agentId r) \<noteq> toLowerCase (in_agentId inp)
            else toLowerCase (carvId r) = toLowerCase (in_carvId inp)
               \<or> toLowerCase (agentId r) = toLowerCase (in_agentId inp)"
  shows "\<exists>e. assertCanLink reg inp = Inl e \<and> registerIdentity now reg inp = (Inl e, reg)"
proof (cases "walletToIdentity reg (toLowerCase (in_wallet inp))")
  case (Some existing)
  show ?thesis
  proof (cases "k = toLowerCase (in_wallet inp)")
    case True
    with Some r c show ?thesis
      by (auto simp: assertCanLink_def registerIdentity_def Let_def pairDiffers_def)
  next
    case False
    with regInvD[OF inv r] regInvD[OF inv Some] c
    have "pairDiffers existing (toLowerCase (in_carvId inp)) (toLowerCase (in_agentId inp))"
      unfolding pairDiffers_def by auto
    with Some show ?thesis
      by (auto simp: assertCanLink_def registerIdentity_def Let_def)
  qed
next
  case None
  with r have ne: "k \<noteq> toLowerCase (in_wallet inp)" by auto
  from regInvD[OF inv r] ne c have "ownedByOther (carvIdToWallet reg) (toLowerCase (in_carvId inp)) (toLowerCase (in_wallet inp))
     \<or> ownedByOther (agentIdToWallet reg) (toLowerCase (in_agentId inp)) (toLowerCase (in_wallet inp))"
    by (auto simp: ownedByOther_def)
  with None show ?thesis
    by (auto simp: assertCanLink_def registerIdentity_def Let_def)
qed

lemma registerIdentity_known:
  assumes "walletToIdentity reg (toLowerCase (in_wallet inp)) = Some existing"
    and "\<not> pairDiffers existing (toLowerCase (in_carvId inp)) (toLowerCase (in_agentId inp))"
  shows "registerIdentity now reg inp =
     (Inr (existing\<lparr>alias' := nullish (in_alias inp) (alias' existing), lastVerifiedAt := now,
             totalVerifications := totalVerifications existing + 1\<rparr>),
      reg\<lparr>walletToIdentity := (walletToIdentity reg)(toLowerCase (in_wallet inp) \<mapsto>
             existing\<lparr>alias' := nullish (in_alias inp) (alias' existing), lastVerifiedAt := now,
             totalVerifications := totalVerifications existing + 1\<rparr>)\<rparr>)"
  using assms by (simp add: registerIdentity_def Let_def touchIdentity_def)

lemma registerIdentity_success_stored:
  assumes "registerIdentity now reg inp = (Inr r, reg1)"
  shows "walletToIdentity reg1 (toLowerCase (in_wallet inp)) = Some r"
    and "\<not> pairDiffers r (toLowerCase (in_carvId inp)) (toLowerCase (in_agentId inp))"
  using assms
  by (auto simp: registerIdentity_def Let_def pairDiffers_def touchIdentity_def
      split: option.splits if_splits sum.splits)

lemma registerIdentity_failure_unchanged:
  "registerIdentity now reg inp = (Inl e, reg1) \<Longrightarrow> reg1 = reg"
  by (auto simp: registerIdentity_def Let_def split: option.splits if_splits sum.splits)

text \<open>
  Uniqueness of the bindings on the runs in which every wallet given to
  \<open>registerIdentity\<close> is a non-empty string, as every wallet that \<open>validateWallet\<close> lets
  through is: no two stored records, under different wallet keys, share a CARV ID or an
  agent ID compared in lower case, and a call of \<open>assertCanLink\<close> or \<open>registerIdentity\<close>
  that would change the pair of a bound wallet, or bind another wallet to a CARV ID or
  agent ID that a stored record carries, fails with one of the three conflict errors and
  leaves the registry as it was.
\<close>

lemma registry_bindings_unique:
  assumes "list_all opWalletNonEmpty ops"
  shows "(walletToIdentity (runOps ops) k1 = Some r1 \<and> walletToIdentity (runOps ops) k2 = Some r2
            \<and> k1 \<noteq> k2 \<longrightarrow>
          toLowerCase (carvId r1) \<noteq> toLowerCase (carvId r2)
            \<and> toLowerCase (agentId r1) \<noteq> toLowerCase (agentId r2))
       \<and> (walletToIdentity (runOps ops) k = Some r
            \<and> ((k = toLowerCase (in_wallet inp)
                  \<and> (toLowerCase (carvId r) \<noteq> toLowerCase (in_carvId inp)
                       \<or> toLowerCase (agentId r) \<noteq> toLowerCase (in_agentId inp)))
                \<or> (k \<noteq> toLowerCase (in_wallet inp)
                  \<and> (toLowerCase (carvId r) = toLowerCase (in_carvId inp)
                       \<or> toLowerCase (agentId r) = toLowerCase (in_agentId inp)))) \<longrightarrow>
          (\<exists>e. assertCanLink (runOps ops) inp = Inl e
              \<and> registerIdentity now (runOps ops) inp = (Inl e, runOps ops)))"
proof (intro conjI impI)
  assume "walletToIdentity (runOps ops) k1 = Some r1 \<and> walletToIdentity (runOps ops) k2 = Some r2
            \<and> k1 \<noteq> k2"
  then show "toLowerCase (carvId r1) \<noteq> toLowerCase (carvId r2)"
    and "toLowerCase (agentId r1) \<noteq> toLowerCase (agentId r2)"
    using regInv_distinct[OF regInv_runOps[OF assms], of k1 r1 k2 r2] by simp_all
next
  assume c: "walletToIdentity (runOps ops) k = Some r
            \<and> ((k = toLowerCase (in_wallet inp)
                  \<and> (toLowerCase (carvId r) \<noteq> toLowerCase (in_carvId inp)
                       \<or> toLowerCase (agentId r) \<noteq> toLowerCase (in_agentId inp)))
                \<or> (k \<noteq> toLowerCase (in_wallet inp)
                  \<and> (toLowerCase (carvId r) = toLowerCase (in_carvId inp)
                       \<or> toLowerCase (agentId r) = toLowerCase (in_agentId inp))))"
  then have "if k = toLowerCase (in_wallet inp)
            then toLowerCase (carvId r) \<noteq> toLowerCase (in_carvId inp)
               \<or> toLowerCase (agentId r) \<noteq> toLowerCase (in_agentId inp)
            else toLowerCase (carvId r) = toLowerCase (in_carvId inp)
               \<or> toLowerCase (agentId r) = toLowerCase (in_agentId inp)"
    by auto
  with c show "\<exists>e. assertCanLink (runOps ops) inp = Inl e
              \<and> registerIdentity now (runOps ops) inp = (Inl e, runOps ops)"
    using regInv_conflict[OF regInv_runOps[OF assms], of k r inp now] by blast
qed

lemma registry_bindings_unique_example:
  "list_all opWalletNonEmpty sampleOps
   \<and> walletToIdentity (runOps sampleOps) ''wa'' = Some sampleAnnStored
   \<and> walletToIdentity (runOps sampleOps) ''wb'' = Some sampleBobStored
   \<and> ''wa'' \<noteq> ''wb''
   \<and> toLowerCase (carvId sampleAnnStored) \<noteq> toLowerCase (carvId sampleBobStored)
   \<and> toLowerCase (agentId sampleAnnStored) \<noteq> toLowerCase (agentId sampleBobStored)
   \<and> ''wa'' \<noteq> toLowerCase (in_wallet sampleEve)
   \<and> toLowerCase (carvId sampleAnnStored) = toLowerCase (in_carvId sampleEve)
   \<and> (\<exists>e. assertCanLink (runOps sampleOps) sampleEve = Inl e
         \<and> registerIdentity 4 (runOps sampleOps) sampleEve = (Inl e, runOps sampleOps))"
proof -
  have h: "list_all opWalletNonEmpty sampleOps"
    by simp
  have a: "walletToIdentity (runOps sampleOps) ''wa'' = Some sampleAnnStored"
    by code_simp
  have b: "walletToIdentity (runOps sampleOps) ''wb'' = Some sampleBobStored"
    by code_simp
  have n: "''wa'' \<noteq> ''wb''"
    by simp
  have w: "''wa'' \<noteq> toLowerCase (in_wallet sampleEve)"
    by code_simp
  have c: "toLowerCase (carvId sampleAnnStored) = toLowerCase (in_carvId sampleEve)"
    by code_simp
  note t = registry_bindings_unique[OF h, of "''wa''" sampleAnnStored "''wb''" sampleBobStored
      "''wa''" sampleAnnStored sampleEve 4]
  from t a b n have u: "toLowerCase (carvId sampleAnnStored) \<noteq> toLowerCase (carvId sampleBobStored)
     \<and> toLowerCase (agentId sampleAnnStored) \<noteq> toLowerCase (agentId sampleBobStored)"
    by blast
  from t a w c have v: "\<exists>e. assertCanLink (runOps sampleOps) sampleEve = Inl e
         \<and> registerIdentity 4 (runOps sampleOps) sampleEve = (Inl e, runOps sampleOps)"
    by blast
  from h a b n u w c v show ?thesis
    by blast
qed

text \<open>
  \<^bold>\<open>C1\<close>.  The claim: on every sequence of registry operations from the empty
  registry no two records share a CARV ID or an agent ID, and a \<open>registerIdentity\<close> or
  \<open>assertCanLink\<close> call that would bind a second wallet to a bound CARV ID or agent ID
  fails with a conflict error.  The registry checks for this (\<open>registerIdentity\<close> is
  documented to throw on conflicts), but its test \<open>carvOwner && carvOwner !== walletKey\<close>
  takes the owner \<open>""\<close> for no owner.  So once the wallet \<open>""\<close> has registered a CARV ID,
  \<open>assertCanLink\<close> accepts the same CARV ID for another wallet, \<open>registerIdentity\<close> stores
  a second record with it, and two records share the CARV ID.
\<close>

theorem registry_empty_wallet_binds_twice:
  "assertCanLink (runOps [RegisterIdentity 1 sampleEmptyWallet]) sampleSecondWallet = Inr None
   \<and> fst (registerIdentity 2 (runOps [RegisterIdentity 1 sampleEmptyWallet]) sampleSecondWallet)
       = Inr \<lparr>wallet = ''Wb'', carvId = ''carv_aaaa'', agentId = ''agent_bbbb'', alias' = None,
              registeredAt = 2, lastVerifiedAt = 2, totalVerifications = 1\<rparr>
   \<and> map_option carvId
         (walletToIdentity
            (runOps [RegisterIdentity 1 sampleEmptyWallet, RegisterIdentity 2 sampleSecondWallet])
            [])
       = Some ''carv_aaaa''
   \<and> map_option carvId
         (walletToIdentity
            (runOps [RegisterIdentity 1 sampleEmptyWallet, RegisterIdentity 2 sampleSecondWallet])
            ''wb'')
       = Some ''carv_aaaa''"
  by (simp add: runOps_def registerIdentity_def assertCanLink_def emptyRegistry_def Let_def
      ownedByOther_def pairDiffers_def toLowerCase_def lowerChar_def)

text \<open>
  \<^bold>\<open>C6\<close>, as amended.  On a known wallet whose stored pair agrees with the input,
  \<open>registerIdentity\<close> succeeds, replaces the alias by the supplied one whenever an alias is
  supplied (the empty string included) and keeps it when none is supplied, sets
  \<open>lastVerifiedAt\<close> to the time of the call, adds exactly one to \<open>totalVerifications\<close> and
  changes nothing else; the set of stored wallets stays the same.  A second call with the
  same wallet, CARV ID and agent ID after a successful one succeeds, counts one more
  verification and creates no record.
\<close>

theorem registerIdentity_touch_known_wallet:
  "(walletToIdentity reg (toLowerCase (in_wallet inp)) = Some existing \<and>
    \<not> pairDiffers existing (toLowerCase (in_carvId inp)) (toLowerCase (in_agentId inp)) \<longrightarrow>
    (\<exists>updated reg1.
       registerIdentity now reg inp = (Inr updated, reg1) \<and>
       updated = existing\<lparr>alias' := (case in_alias inp of None \<Rightarrow> alias' existing | Some a \<Rightarrow> Some a),
                          lastVerifiedAt := now,
                          totalVerifications := totalVerifications existing + 1\<rparr> \<and>
       reg1 = reg\<lparr>walletToIdentity :=
                    (walletToIdentity reg)(toLowerCase (in_wallet inp) \<mapsto> updated)\<rparr> \<and>
       dom (walletToIdentity reg1) = dom (walletToIdentity reg)))
   \<and>
   (registerIdentity now0 reg0 inp = (Inr first, reg) \<and>
    in_wallet inp2 = in_wallet inp \<and> in_carvId inp2 = in_carvId inp \<and>
    in_agentId inp2 = in_agentId inp \<longrightarrow>
    (\<exists>second reg2.
       registerIdentity now reg inp2 = (Inr second, reg2) \<and>
       totalVerifications second = totalVerifications first + 1 \<and>
       dom (walletToIdentity reg2) = dom (walletToIdentity reg)))"
proof (intro conjI impI)
  assume a: "walletToIdentity reg (toLowerCase (in_wallet inp)) = Some existing \<and>
    \<not> pairDiffers existing (toLowerCase (in_carvId inp)) (toLowerCase (in_agentId inp))"
  have n: "nullish (in_alias inp) (alias' existing) =
      (case in_alias inp of None \<Rightarrow> alias' existing | Some a \<Rightarrow> Some a)"
    by (simp add: nullish_def)
  from a have "toLowerCase (in_wallet inp) \<in> dom (walletToIdentity reg)" by auto
  then have "insert (toLowerCase (in_wallet inp)) (dom (walletToIdentity reg)) = dom (walletToIdentity reg)"
    by auto
  with a show "\<exists>updated reg1.
       registerIdentity now reg inp = (Inr updated, reg1) \<and>
       updated = existing\<lparr>alias' := (case in_alias inp of None \<Rightarrow> alias' existing | Some a \<Rightarrow> Some a),
                          lastVerifiedAt := now,
                          totalVerifications := totalVerifications existing + 1\<rparr> \<and>
       reg1 = reg\<lparr>walletToIdentity :=
                    (walletToIdentity reg)(toLowerCase (in_wallet inp) \<mapsto> updated)\<rparr> \<and>
       dom (walletToIdentity reg1) = dom (walletToIdentity reg)"
    by (simp add: registerIdentity_known n)
next
  assume b: "registerIdentity now0 reg0 inp = (Inr first, reg) \<and>
    in_wallet inp2 = in_wallet inp \<and> in_carvId inp2 = in_carvId inp \<and>
    in_agentId inp2 = in_agentId inp"
  then have st: "walletToIdentity reg (toLowerCase (in_wallet inp2)) = Some first"
    and ok: "\<not> pairDiffers first (toLowerCase (in_carvId inp2)) (toLowerCase (in_agentId inp2))"
    using registerIdentity_success_stored[of now0 reg0 inp first reg] by simp_all
  from st have "insert (toLowerCase (in_wallet inp2)) (dom (walletToIdentity reg)) = dom (walletToIdentity reg)"
    by auto
  then show "\<exists>second reg2.
       registerIdentity now reg inp2 = (Inr second, reg2) \<and>
       totalVerifications second = totalVerifications first + 1 \<and>
       dom (walletToIdentity reg2) = dom (walletToIdentity reg)"
    by (simp add: registerIdentity_known[OF st ok])
qed

lemmas registry_eval =
  registerIdentity_def assertCanLink_def emptyRegistry_def Let_def ownedByOther_def
  pairDiffers_def touchIdentity_def nullish_def toLowerCase_def lowerChar_def

theorem registerIdentity_touch_known_wallet_witness:
  "registerIdentity 1 emptyRegistry sampleAnn = (Inr sampleAnnFirst, sampleRegistry)
   \<and> walletToIdentity sampleRegistry (toLowerCase (in_wallet sampleAnn)) = Some sampleAnnFirst
   \<and> \<not> pairDiffers sampleAnnFirst (toLowerCase (in_carvId sampleAnn))
          (toLowerCase (in_agentId sampleAnn))
   \<and> (\<exists>updated reg1.
         registerIdentity 2 sampleRegistry (sampleAnn\<lparr>in_alias := None\<rparr>) = (Inr updated, reg1)
         \<and> updated = sampleAnnFirst\<lparr>lastVerifiedAt := 2, totalVerifications := 2\<rparr>
         \<and> dom (walletToIdentity reg1) = dom (walletToIdentity sampleRegistry))
   \<and> (\<exists>second reg2.
         registerIdentity 2 sampleRegistry (sampleAnn\<lparr>in_alias := Some ''annie''\<rparr>)
           = (Inr second, reg2)
         \<and> totalVerifications second = totalVerifications sampleAnnFirst + 1
         \<and> dom (walletToIdentity reg2) = dom (walletToIdentity sampleRegistry))"
proof -
  have f: "registerIdentity 1 emptyRegistry sampleAnn = (Inr sampleAnnFirst, sampleRegistry)"
    by (simp add: prod_eq_iff registry_eval)
  have s: "walletToIdentity sampleRegistry (toLowerCase (in_wallet sampleAnn)) = Some sampleAnnFirst"
    by (simp add: registry_eval)
  have p: "\<not> pairDiffers sampleAnnFirst (toLowerCase (in_carvId sampleAnn))
          (toLowerCase (in_agentId sampleAnn))"
    by (simp add: pairDiffers_def)
  note t1 = registerIdentity_touch_known_wallet[where reg = sampleRegistry
      and inp = "sampleAnn\<lparr>in_alias := None\<rparr>" and existing = sampleAnnFirst and now = 2
      and ?now0 = 1 and ?reg0.0 = emptyRegistry and first = sampleAnnFirst and ?inp2.0 = sampleAnn,
      THEN conjunct1]
  note t2 = registerIdentity_touch_known_wallet[where reg = sampleRegistry
      and inp = sampleAnn and existing = sampleAnnFirst and now = 2
      and ?now0 = 1 and ?reg0.0 = emptyRegistry and first = sampleAnnFirst
      and ?inp2.0 = "sampleAnn\<lparr>in_alias := Some ''annie''\<rparr>", THEN conjunct2]
  from t1 s p have a: "\<exists>updated reg1.
         registerIdentity 2 sampleRegistry (sampleAnn\<lparr>in_alias := None\<rparr>) = (Inr updated, reg1)
         \<and> updated = sampleAnnFirst\<lparr>lastVerifiedAt := 2, totalVerifications := 2\<rparr>
         \<and> dom (walletToIdentity reg1) = dom (walletToIdentity sampleRegistry)"
    by simp
  from t2 f have b: "\<exists>second reg2.
         registerIdentity 2 sampleRegistry (sampleAnn\<lparr>in_alias := Some ''annie''\<rparr>)
           = (Inr second, reg2)
         \<and> totalVerifications second = totalVerifications sampleAnnFirst + 1
         \<and> dom (walletToIdentity reg2) = dom (walletToIdentity sampleRegistry)"
    by simp
  from f s p a b show ?thesis by blast
qed

theorem registerIdentity_empty_alias_counterexample:
  "fst (registerIdentity 2 sampleRegistry (sampleAnn\<lparr>in_alias := Some ''''\<rparr>))
     = Inr (sampleAnnFirst\<lparr>alias' := Some '''', lastVerifiedAt := 2, totalVerifications := 2\<rparr>)"
  by (simp add: registry_eval)

section \<open>Properties of the challenge verification\<close>

lemma dropExpiredChallenges_frame [simp]:
  "sessions (dropExpiredChallenges now svc) = sessions svc"
  "identityRegistry (dropExpiredChallenges now svc) = identityRegistry svc"
  "sessionTtlMinutes (dropExpiredChallenges now svc) = sessionTtlMinutes svc"
  by (simp_all add: dropExpiredChallenges_def)

lemma dropExpiredChallenges_lookup:
  "challenges (dropExpiredChallenges now svc) key =
     (case challenges svc key of
        None \<Rightarrow> None
      | Some challenge \<Rightarrow> if expiresAtTs challenge < now then None else Some challenge)"
  by (simp add: dropExpiredChallenges_def)

lemma validate_errors:
  "validateWallet lib x = Inl e \<Longrightarrow> e = InvalidWallet"
  "validateCarvId x = Inl e \<Longrightarrow> e = InvalidCarvId"
  "validateAgentId x = Inl e \<Longrightarrow> e = InvalidAgentId"
  by (auto simp: validateWallet_def validateCarvId_def validateAgentId_def
      split: option.splits if_splits)

lemma verifyChallenge_success_consumed:
  assumes "fst (verifyChallenge lib env svc inp) = Inr session"
  shows "\<exists>w c a sg. validateWallet lib (vi_wallet inp) = Inr w
           \<and> validateCarvId (vi_carvId inp) = Inr c
           \<and> validateAgentId (vi_agentId inp) = Inr a
           \<and> bs58Decode lib (vi_signature inp) = Some sg
           \<and> challenges (snd (verifyChallenge lib env svc inp)) (toLowerCase w) = None"
  using assms
  by (auto simp: verifyChallenge_def Let_def createSession_def
      split: sum.splits option.splits if_splits prod.splits)

lemma verifyChallenge_no_challenge:
  assumes "validateWallet lib (vi_wallet inp) = Inr w"
    and "validateCarvId (vi_carvId inp) = Inr c"
    and "validateAgentId (vi_agentId inp) = Inr a"
    and "bs58Decode lib (vi_signature inp) = Some sg"
    and "challenges (dropExpiredChallenges (sweepNow env) svc) (toLowerCase w) = None"
  shows "verifyChallenge lib env svc inp
           = (Inl ChallengeNotFound, dropExpiredChallenges (sweepNow env) svc)"
  using assms by (simp add: verifyChallenge_def Let_def)

lemmas auth_eval =
  requestChallenge_def verifyChallenge_def validateWallet_def validateCarvId_def
  validateAgentId_def CARV_ID_REGEXP_def AGENT_ID_REGEXP_def matchesId_def isAlnum_def
  toLowerCase_def lowerChar_def assertCanLink_def registerIdentity_def emptyRegistry_def
  ownedByOther_def pairDiffers_def touchIdentity_def nullish_def sanitizeAlias_def trim_def
  isSpace_def dropExpiredChallenges_def createSession_def Let_def

lemma samplePending_eq:
  "samplePending = sampleService\<lparr>challenges := [toLowerCase sampleWallet \<mapsto> sampleChallenge]\<rparr>"
  by (simp add: auth_eval joinLines_def showInt_def showNat.simps)

lemma sampleVerify_valid:
  "validateWallet sampleLib (vi_wallet sampleVerify) = Inr sampleWallet"
  "validateCarvId (vi_carvId sampleVerify) = Inr ''carv_demo001''"
  "validateAgentId (vi_agentId sampleVerify) = Inr ''agent_demo001''"
  "bs58Decode sampleLib (vi_signature sampleVerify) = Some sampleSignature"
  by (simp_all add: auth_eval)

lemma samplePending_challenge:
  "challenges samplePending (toLowerCase sampleWallet) = Some sampleChallenge"
  unfolding samplePending_eq by simp

lemma sampleVerify_in_time:
  "fst (verifyChallenge sampleLib sampleEnv samplePending sampleVerify) = Inr sampleSession"
  unfolding samplePending_eq by (simp add: auth_eval)

text \<open>
  \<^bold>\<open>C10\<close>.  Whenever \<open>verifyChallenge\<close> fails, for whatever reason, the session store
  and the identity registry are what they were before the call.
\<close>

theorem verifyChallenge_failure_atomic:
  assumes "fst (verifyChallenge lib env svc inp) = Inl e"
  shows "sessions (snd (verifyChallenge lib env svc inp)) = sessions svc
       \<and> identityRegistry (snd (verifyChallenge lib env svc inp)) = identityRegistry svc"
  using assms
  by (auto simp: verifyChallenge_def Let_def createSession_def
      dest: registerIdentity_failure_unchanged
      split: sum.splits option.splits if_splits prod.splits)

theorem verifyChallenge_failure_atomic_witness:
  "fst (verifyChallenge sampleLib sampleEnv samplePending (sampleVerify\<lparr>vi_signature := ''badsig''\<rparr>))
     = Inl SignatureVerificationFailed
   \<and> sessions (snd (verifyChallenge sampleLib sampleEnv samplePending
                      (sampleVerify\<lparr>vi_signature := ''badsig''\<rparr>))) = sessions samplePending
   \<and> identityRegistry (snd (verifyChallenge sampleLib sampleEnv samplePending
                      (sampleVerify\<lparr>vi_signature := ''badsig''\<rparr>))) = identityRegistry samplePending"
proof -
  have h: "fst (verifyChallenge sampleLib sampleEnv samplePending
                 (sampleVerify\<lparr>vi_signature := ''badsig''\<rparr>)) = Inl SignatureVerificationFailed"
    unfolding samplePending_eq by (simp add: auth_eval)
  from verifyChallenge_failure_atomic[OF h] h show ?thesis by blast
qed

text \<open>
  \<^bold>\<open>C4\<close>.  After a successful \<open>verifyChallenge\<close>, the same call made again on the
  resulting state (no \<open>requestChallenge\<close> in between, any clock) fails, and with the
  "Challenge not found or expired" error, that is with NotFoundError: the challenge was
  consumed.
\<close>

theorem verifyChallenge_nonce_single_use:
  assumes "fst (verifyChallenge lib env svc inp) = Inr session"
  shows "fst (verifyChallenge lib env2 (snd (verifyChallenge lib env svc inp)) inp)
           = Inl ChallengeNotFound"
proof -
  from verifyChallenge_success_consumed[OF assms] obtain w c a sg where
    v: "validateWallet lib (vi_wallet inp) = Inr w" "validateCarvId (vi_carvId inp) = Inr c"
       "validateAgentId (vi_agentId inp) = Inr a" "bs58Decode lib (vi_signature inp) = Some sg"
    and gone: "challenges (snd (verifyChallenge lib env svc inp)) (toLowerCase w) = None"
    by blast
  from gone have "challenges (dropExpiredChallenges (sweepNow env2)
                     (snd (verifyChallenge lib env svc inp))) (toLowerCase w) = None"
    by (simp add: dropExpiredChallenges_lookup)
  from verifyChallenge_no_challenge[OF v this] show ?thesis by simp
qed

theorem verifyChallenge_nonce_single_use_witness:
  "fst (verifyChallenge sampleLib sampleEnv samplePending sampleVerify) = Inr sampleSession
   \<and> fst (verifyChallenge sampleLib sampleReplayEnv
            (snd (verifyChallenge sampleLib sampleEnv samplePending sampleVerify)) sampleVerify)
       = Inl ChallengeNotFound"
proof -
  have h: "fst (verifyChallenge sampleLib sampleEnv samplePending sampleVerify) = Inr sampleSession"
    by (rule sampleVerify_in_time)
  from verifyChallenge_nonce_single_use[OF h, of sampleReplayEnv] h show ?thesis
    by blast
qed

text \<open>
  \<^bold>\<open>C2\<close>, as amended.  When the pending challenge of the wallet has its \<open>expiresAtTs\<close>
  in the past at the time of the call, \<open>verifyChallenge\<close> with well-formed arguments fails
  with the "Challenge not found or expired" error (NotFoundError), whatever the nonce, the
  identifiers and the signature are: the sweep at the start of the call has deleted the
  challenge before it is looked up.
\<close>

theorem verifyChallenge_expired_challenge_not_found:
  assumes "validateWallet lib (vi_wallet inp) = Inr w"
    and "validateCarvId (vi_carvId inp) = Inr c"
    and "validateAgentId (vi_agentId inp) = Inr a"
    and "bs58Decode lib (vi_signature inp) = Some sg"
    and "challenges svc (toLowerCase w) = Some ch"
    and "expiresAtTs ch < sweepNow env"
  shows "fst (verifyChallenge lib env svc inp) = Inl ChallengeNotFound
       \<and> challenges (snd (verifyChallenge lib env svc inp)) (toLowerCase w) = None"
proof -
  from assms(5,6) have gone:
    "challenges (dropExpiredChallenges (sweepNow env) svc) (toLowerCase w) = None"
    by (simp add: dropExpiredChallenges_lookup)
  from verifyChallenge_no_challenge[OF assms(1-4) gone] gone show ?thesis by simp
qed

theorem verifyChallenge_expired_challenge_not_found_witness:
  "validateWallet sampleLib (vi_wallet sampleVerify) = Inr sampleWallet
   \<and> validateCarvId (vi_carvId sampleVerify) = Inr ''carv_demo001''
   \<and> validateAgentId (vi_agentId sampleVerify) = Inr ''agent_demo001''
   \<and> bs58Decode sampleLib (vi_signature sampleVerify) = Some sampleSignature
   \<and> challenges samplePending (toLowerCase sampleWallet) = Some sampleChallenge
   \<and> expiresAtTs sampleChallenge < sweepNow sampleLateEnv
   \<and> fst (verifyChallenge sampleLib sampleLateEnv samplePending sampleVerify) = Inl ChallengeNotFound
   \<and> challenges (snd (verifyChallenge sampleLib sampleLateEnv samplePending sampleVerify))
        (toLowerCase sampleWallet) = None"
proof -
  have e: "expiresAtTs sampleChallenge < sweepNow sampleLateEnv"
    by simp
  from verifyChallenge_expired_challenge_not_found[OF sampleVerify_valid samplePending_challenge e]
    sampleVerify_valid samplePending_challenge e
  show ?thesis by blast
qed

text \<open>
  The same request that is verified in time is answered "not found", not "expired", once
  the challenge has lapsed.
\<close>

theorem verifyChallenge_expired_counterexample:
  "fst (verifyChallenge sampleLib sampleEnv samplePending sampleVerify) = Inr sampleSession
   \<and> expiresAtTs sampleChallenge < sweepNow sampleLateEnv
   \<and> fst (verifyChallenge sampleLib sampleLateEnv samplePending sampleVerify) = Inl ChallengeNotFound
   \<and> fst (verifyChallenge sampleLib sampleLateEnv samplePending sampleVerify) \<noteq> Inl ChallengeExpired"
proof -
  have "fst (verifyChallenge sampleLib sampleLateEnv samplePending sampleVerify) = Inl ChallengeNotFound"
    unfolding samplePending_eq by (simp add: auth_eval)
  with sampleVerify_in_time show ?thesis by simp
qed

text \<open>
  The "Challenge expired" error needs the clock to pass \<open>expiresAtTs\<close> between the sweep
  and the expiry check.
\<close>

lemma verifyChallenge_expired_between_reads:
  assumes "fst (verifyChallenge lib env svc inp) = Inl ChallengeExpired"
  shows "\<exists>w ch. validateWallet lib (vi_wallet inp) = Inr w
           \<and> challenges svc (toLowerCase w) = Some ch
           \<and> sweepNow env \<le> expiresAtTs ch \<and> expiresAtTs ch < checkNow env"
  using assms
  by (auto simp: verifyChallenge_def Let_def createSession_def dropExpiredChallenges_lookup
      dest: validate_errors
      split: sum.splits option.splits if_splits prod.splits)

text \<open>
  \<^bold>\<open>C3\<close>, as amended.  A call of \<open>verifyChallenge\<close> with well-formed arguments that
  finds a pending challenge for the wallet deletes it when the call succeeds and when it
  fails with "Challenge expired"; on every other failure (nonce mismatch, identifier
  mismatch, a signature of the wrong size or one that does not verify, an identity
  conflict) the challenge stays pending.
\<close>

theorem verifyChallenge_challenge_after_call:
  assumes "validateWallet lib (vi_wallet inp) = Inr w"
    and "validateCarvId (vi_carvId inp) = Inr c"
    and "validateAgentId (vi_agentId inp) = Inr a"
    and "bs58Decode lib (vi_signature inp) = Some sg"
    and "challenges svc (toLowerCase w) = Some ch"
    and "\<not> expiresAtTs ch < sweepNow env"
  shows "challenges (snd (verifyChallenge lib env svc inp)) (toLowerCase w) =
           (case fst (verifyChallenge lib env svc inp) of
              Inr session \<Rightarrow> None
            | Inl e \<Rightarrow> if e = ChallengeExpired then None else Some ch)"
proof -
  from assms(5,6) have kept:
    "challenges (dropExpiredChallenges (sweepNow env) svc) (toLowerCase w) = Some ch"
    by (simp add: dropExpiredChallenges_lookup)
  with assms(1-4) show ?thesis
    by (auto simp: verifyChallenge_def Let_def createSession_def
        split: sum.splits prod.splits)
qed

theorem verifyChallenge_challenge_after_call_witness:
  "validateWallet sampleLib (vi_wallet sampleVerify) = Inr sampleWallet
   \<and> validateCarvId (vi_carvId sampleVerify) = Inr ''carv_demo001''
   \<and> validateAgentId (vi_agentId sampleVerify) = Inr ''agent_demo001''
   \<and> bs58Decode sampleLib (vi_signature sampleVerify) = Some sampleSignature
   \<and> challenges samplePending (toLowerCase sampleWallet) = Some sampleChallenge
   \<and> \<not> expiresAtTs sampleChallenge < sweepNow sampleEnv
   \<and> fst (verifyChallenge sampleLib sampleEnv samplePending sampleVerify) = Inr sampleSession
   \<and> challenges (snd (verifyChallenge sampleLib sampleEnv samplePending sampleVerify))
        (toLowerCase sampleWallet) = None"
proof -
  have e: "\<not> expiresAtTs sampleChallenge < sweepNow sampleEnv"
    by simp
  from verifyChallenge_challenge_after_call[OF sampleVerify_valid samplePending_challenge e]
  have "challenges (snd (verifyChallenge sampleLib sampleEnv samplePending sampleVerify))
        (toLowerCase sampleWallet) = None"
    by (simp only: sampleVerify_in_time sum.case)
  with sampleVerify_valid samplePending_challenge e sampleVerify_in_time
  show ?thesis by blast
qed

text \<open>
  A wrong nonce is answered with "Nonce mismatch" and the challenge is still pending.
\<close>

theorem verifyChallenge_mismatch_keeps_challenge_counterexample:
  "challenges samplePending (toLowerCase sampleWallet) = Some sampleChallenge
   \<and> fst (verifyChallenge sampleLib sampleEnv samplePending (sampleVerify\<lparr>vi_nonce := ''nonce2''\<rparr>))
       = Inl NonceMismatch
   \<and> challenges (snd (verifyChallenge sampleLib sampleEnv samplePending
                        (sampleVerify\<lparr>vi_nonce := ''nonce2''\<rparr>)))
        (toLowerCase sampleWallet) = Some sampleChallenge"
proof -
  have "verifyChallenge sampleLib sampleEnv samplePending (sampleVerify\<lparr>vi_nonce := ''nonce2''\<rparr>)
      = (Inl NonceMismatch, sampleService\<lparr>challenges := [toLowerCase sampleWallet \<mapsto> sampleChallenge]\<rparr>)"
    unfolding samplePending_eq by (simp add: auth_eval fun_eq_iff)
  with samplePending_challenge show ?thesis by simp
qed

section \<open>Properties of the rate limiter\<close>



lemma clearExpiredSubmissions_keeps_recent:
  assumes "m key = Some t" and "now - t \<le> 60000"
  shows "clearExpiredSubmissions now m key = Some t"
  using assms by (simp add: clearExpiredSubmissions_def SUBMISSION_WINDOW_MS_def)

lemma submit_fails_only_in_checks:
  "(fst (submit lib env svc rawInput) = Inl e) = (fst (submitChecks env svc rawInput) = Inl e)"
  by (auto simp: submit_def Let_def split: prod.splits sum.splits)

lemma submit_rate_limited:
  assumes "safeParse rawInput = Inr input"
    and "assertSession (sessionCheckNow env) (authService svc) (sessionToken input)
           = (Inr session, auth1)"
    and "questMap (questId input) = Some quest"
    and "minAnswerLength quest \<le> length (answer input)"
    and "length (answer input) \<le> maxAnswerLength quest"
  shows "(\<exists>msg. fst (submit lib env svc rawInput) = Inl (RateLimited msg))
         = (\<not> allowed (fst (checkUserQuestRateLimit (rateLimitNow env) (recentSubmissions svc)
                               (q_id quest) (s_wallet session))))"
  using assms
  by (auto simp: submit_def submitChecks_def Let_def split: prod.splits sum.splits)



text \<open>
  The clock value 0 is left out because the limiter's test
  \<open>lastSubmission && now - lastSubmission < SUBMISSION_WINDOW_MS\<close> takes a stored 0 for no
  entry.
\<close>

lemma checkUserQuestRateLimit_stored_zero:
  "allowed (fst (checkUserQuestRateLimit 0 Map.empty ''sql-aggregate'' ''Wa''))
   \<and> (1000::int) - 0 < 60000
   \<and> allowed (fst (checkUserQuestRateLimit 1000
         (snd (checkUserQuestRateLimit 0 Map.empty ''sql-aggregate'' ''Wa''))
         ''sql-aggregate'' ''Wa''))"
  by (simp add: checkUserQuestRateLimit_def Let_def)

section \<open>Properties of the submission service\<close>

lemma dropWhile_none: "\<forall>c\<in>set s. \<not> P c \<Longrightarrow> dropWhile P s = s"
  by (cases s) auto

lemma collapseSpaces_none: "\<forall>c\<in>set s. \<not> isSpace c \<Longrightarrow> collapseSpaces s = s"
  by (induction s) auto

lemma trim_none: "\<forall>c\<in>set s. \<not> isSpace c \<Longrightarrow> trim s = s"
  by (simp add: trim_def dropWhile_none)

lemma formatPreview_length: "length (formatPreview text limit) \<le> limit + length previewSuffix"
  by (simp add: formatPreview_def Let_def)

lemma formatPreview_take:
  "take limit (formatPreview text limit) = take limit (trim (collapseSpaces text))"
  by (simp add: formatPreview_def Let_def)

text \<open>
  \<^bold>\<open>C9\<close>, as amended.  The \<open>answerPreview\<close> of the proof payload is the collapsed,
  trimmed answer itself when that has at most \<open>previewLimit\<close> characters; otherwise it is
  the first \<open>previewLimit\<close> characters of it followed by the truncation mark, which is not
  empty.  So the preview stays within \<open>previewLimit\<close> exactly when the collapsed, trimmed
  answer does, and a cut preview is longer than \<open>previewLimit\<close> by the length of the mark.
\<close>

theorem answerPreview_cut_and_marked:
  "p_answerPreview (buildProofPayload ts quest session name ans score)
     = (if length (trim (collapseSpaces ans)) \<le> previewLimit quest
        then trim (collapseSpaces ans)
        else take (previewLimit quest) (trim (collapseSpaces ans)) @ previewSuffix)
   \<and> previewSuffix \<noteq> []
   \<and> (length (p_answerPreview (buildProofPayload ts quest session name ans score))
          \<le> previewLimit quest)
       = (length (trim (collapseSpaces ans)) \<le> previewLimit quest)
   \<and> length (p_answerPreview (buildProofPayload ts quest session name ans score))
       \<le> previewLimit quest + length previewSuffix"
proof -
  have m: "previewSuffix \<noteq> []"
    by (simp add: previewSuffix_def)
  have p: "p_answerPreview (buildProofPayload ts quest session name ans score)
     = (if length (trim (collapseSpaces ans)) \<le> previewLimit quest
        then trim (collapseSpaces ans)
        else take (previewLimit quest) (trim (collapseSpaces ans)) @ previewSuffix)"
    by (simp add: buildProofPayload_def formatPreview_def Let_def)
  from m have "0 < length previewSuffix"
    by simp
  with p m show ?thesis
    by (simp only: p) auto
qed

text \<open>
  An answer of 120 letters for the quest \<open>sql-aggregate\<close>, whose limit is 110, has a
  preview of more than 110 characters.
\<close>

theorem answerPreview_exceeds_limit_counterexample:
  "questMap ''sql-aggregate'' = Some sampleQuest
   \<and> previewLimit sampleQuest = 110
   \<and> 110 < length (p_answerPreview (buildProofPayload ''2024-01-01T00:00:00.000Z'' sampleQuest
               sampleSession ''ann'' (replicate 120 (CHR ''a'')) 50))"
proof -
  have q: "questMap ''sql-aggregate'' = Some sampleQuest"
    by (simp add: questMap_def quests_def)
  have n: "\<forall>c\<in>set (replicate 120 (CHR ''a'')). \<not> isSpace c"
    by (simp add: isSpace_def)
  have "formatPreview (replicate 120 (CHR ''a'')) 110
          = take 110 (replicate 120 (CHR ''a'')) @ previewSuffix"
    by (simp add: formatPreview_def collapseSpaces_none[OF n] trim_none[OF n])
  then have "110 < length (formatPreview (replicate 120 (CHR ''a'')) 110)"
    by (simp add: previewSuffix_def)
  with q show ?thesis by (simp add: buildProofPayload_def)
qed

subsection \<open>The serialization determines the payload\<close>

lemma hexDigit_inj: "hexDigit a = hexDigit b \<Longrightarrow> a mod 16 = b mod 16"
proof -
  assume h: "hexDigit a = hexDigit b"
  have d: "distinct ''0123456789abcdef''" by simp
  have "a mod 16 < length ''0123456789abcdef''" "b mod 16 < length ''0123456789abcdef''"
    by simp_all
  with d h show ?thesis
    unfolding hexDigit_def by (simp only: nth_eq_iff_index_eq)
qed

lemma low_code:
  fixes n m :: nat
  assumes "n < 32" "m < 32" "n div 16 mod 16 = m div 16 mod 16" "n mod 16 = m mod 16"
  shows "n = m"
proof -
  from assms(1,2) have "n div 16 < 16" "m div 16 < 16"
    by simp_all
  with assms(3) have d: "n div 16 = m div 16"
    by simp
  have "n = n div 16 * 16 + n mod 16" "m = m div 16 * 16 + m mod 16"
    by simp_all
  with d assms(4) show ?thesis
    by simp
qed

lemma of_char_same:
  assumes "of_char c = (k::nat)" "of_char c' = k"
  shows "c = c'"
proof -
  from assms have "(of_char c :: nat) = of_char c'" by (rule trans[OF _ sym])
  then show ?thesis by (simp only: of_char_eq_iff)
qed

lemma jsonEscape_short:
  "of_char c = (8::nat) \<Longrightarrow> jsonEscape c = [CHR 0x5C, CHR ''b'']"
  "of_char c = (9::nat) \<Longrightarrow> jsonEscape c = [CHR 0x5C, CHR ''t'']"
  "of_char c = (10::nat) \<Longrightarrow> jsonEscape c = [CHR 0x5C, CHR ''n'']"
  "of_char c = (12::nat) \<Longrightarrow> jsonEscape c = [CHR 0x5C, CHR ''f'']"
  "of_char c = (13::nat) \<Longrightarrow> jsonEscape c = [CHR 0x5C, CHR ''r'']"
  "of_char c = (34::nat) \<Longrightarrow> jsonEscape c = [CHR 0x5C, CHR 0x22]"
  "of_char c = (92::nat) \<Longrightarrow> jsonEscape c = [CHR 0x5C, CHR 0x5C]"
  by (simp_all add: jsonEscape_def Let_def)

lemma jsonEscape_long:
  "(of_char c :: nat) < 32 \<Longrightarrow> (of_char c :: nat) \<notin> {8, 9, 10, 12, 13} \<Longrightarrow>
     jsonEscape c = CHR 0x5C # ''u00'' @ [hexDigit (of_char c div 16), hexDigit (of_char c)]"
  by (simp add: jsonEscape_def Let_def)

lemma jsonEscape_plain:
  "32 \<le> (of_char c :: nat) \<Longrightarrow> (of_char c :: nat) \<notin> {34, 92} \<Longrightarrow> jsonEscape c = [c]"
  by (simp add: jsonEscape_def Let_def)

lemma jsonEscape_class:
  obtains (short) "(of_char c :: nat) \<in> {8, 9, 10, 12, 13, 34, 92}"
  | (long) "(of_char c :: nat) < 32" "(of_char c :: nat) \<notin> {8, 9, 10, 12, 13}"
  | (plain) "32 \<le> (of_char c :: nat)" "(of_char c :: nat) \<notin> {34, 92}"
  by (cases "(of_char c :: nat) < 32") auto

lemma jsonEscape_code:
  assumes "jsonEscape c @ r = jsonEscape c' @ r'"
  shows "c = c'"
proof (cases c rule: jsonEscape_class)
  case short
  show ?thesis
  proof (cases c' rule: jsonEscape_class)
    case short
    with \<open>(of_char c :: nat) \<in> {8, 9, 10, 12, 13, 34, 92}\<close> assms show ?thesis
      by (auto simp: jsonEscape_short intro: of_char_same)
  next
    case long
    with \<open>(of_char c :: nat) \<in> {8, 9, 10, 12, 13, 34, 92}\<close> assms show ?thesis
      by (auto simp: jsonEscape_short jsonEscape_long)
  next
    case plain
    with \<open>(of_char c :: nat) \<in> {8, 9, 10, 12, 13, 34, 92}\<close> assms show ?thesis
      by (auto simp: jsonEscape_short jsonEscape_plain)
  qed
next
  case long
  note lc = long
  show ?thesis
  proof (cases c' rule: jsonEscape_class)
    case short
    with lc assms show ?thesis
      by (auto simp: jsonEscape_short jsonEscape_long)
  next
    case long
    with lc assms have "hexDigit (of_char c div 16) = hexDigit (of_char c' div 16)"
      "hexDigit (of_char c) = hexDigit (of_char c')"
      by (simp_all add: jsonEscape_long)
    then have "(of_char c :: nat) div 16 mod 16 = of_char c' div 16 mod 16"
      "(of_char c :: nat) mod 16 = of_char c' mod 16"
      by (auto dest: hexDigit_inj)
    with lc(1) long(1) have "(of_char c :: nat) = of_char c'" by (rule low_code)
    then show ?thesis by (simp only: of_char_eq_iff)
  next
    case plain
    with lc assms show ?thesis
      by (auto simp: jsonEscape_long jsonEscape_plain)
  qed
next
  case plain
  note pc = plain
  show ?thesis
  proof (cases c' rule: jsonEscape_class)
    case short
    with pc assms show ?thesis
      by (auto simp: jsonEscape_short jsonEscape_plain)
  next
    case long
    with pc assms show ?thesis
      by (auto simp: jsonEscape_long jsonEscape_plain)
  next
    case plain
    with pc assms show ?thesis
      by (simp add: jsonEscape_plain)
  qed
qed

lemma jsonEscape_prefix_free:
  assumes "jsonEscape c @ r = jsonEscape c' @ r'"
  shows "c = c' \<and> r = r'"
proof -
  from jsonEscape_code[OF assms] have "c = c'" .
  with assms show ?thesis by simp
qed

lemma jsonEscape_head:
  "\<exists>x xs. jsonEscape c = x # xs \<and> x \<noteq> CHR 0x22"
  by (cases c rule: jsonEscape_class) (auto simp: jsonEscape_short jsonEscape_long jsonEscape_plain)


lemma concat_jsonEscape_delimited:
  "concat (map jsonEscape s) @ CHR 0x22 # r = concat (map jsonEscape s') @ CHR 0x22 # r'
     \<Longrightarrow> s = s' \<and> r = r'"
proof (induction s arbitrary: s')
  case Nil
  show ?case
  proof (cases s')
    case Nil
    with Nil.prems show ?thesis by simp
  next
    case (Cons c cs)
    from jsonEscape_head[of c] obtain x xs where "jsonEscape c = x # xs" "x \<noteq> CHR 0x22"
      by blast
    with Nil.prems Cons show ?thesis by simp
  qed
next
  case (Cons c cs)
  show ?case
  proof (cases s')
    case Nil
    from jsonEscape_head[of c] obtain x xs where "jsonEscape c = x # xs" "x \<noteq> CHR 0x22"
      by blast
    with Cons.prems Nil show ?thesis by simp
  next
    case (Cons c' cs')
    with Cons.prems have
      "jsonEscape c @ (concat (map jsonEscape cs) @ CHR 0x22 # r)
         = jsonEscape c' @ (concat (map jsonEscape cs') @ CHR 0x22 # r')"
      by simp
    from jsonEscape_prefix_free[OF this] have "c = c'"
      and "concat (map jsonEscape cs) @ CHR 0x22 # r = concat (map jsonEscape cs') @ CHR 0x22 # r'"
      by simp_all
    with Cons.IH[of cs'] Cons show ?thesis by simp
  qed
qed

lemma jsonString_delimited [simp]:
  "(jsonString s @ r = jsonString s' @ r') = (s = s' \<and> r = r')"
  using concat_jsonEscape_delimited[of s r s' r'] by (auto simp: jsonString_def)

lemma jsonString_inj [simp]: "(jsonString s = jsonString s') = (s = s')"
  using jsonString_delimited[of s "[]" s' "[]"] by simp

lemma showNat_digits: "set (showNat n) \<subseteq> set ''0123456789''"
proof (induction n rule: showNat.induct)
  case (1 n)
  have d: "''0123456789'' ! (n mod 10) \<in> set ''0123456789''"
    by (rule nth_mem) simp
  show ?case
  proof (cases "n < 10")
    case True
    then have "showNat n = [''0123456789'' ! n]" by (simp add: showNat.simps)
    moreover from True have "''0123456789'' ! n \<in> set ''0123456789''"
      by (intro nth_mem) simp
    ultimately show ?thesis by simp
  next
    case False
    then have "showNat n = showNat (n div 10) @ [''0123456789'' ! (n mod 10)]"
      by (subst showNat.simps) simp
    with 1 False d show ?thesis by simp
  qed
qed

lemma showNat_nonempty: "showNat n \<noteq> []"
  by (subst showNat.simps) simp

lemma digit_inj:
  assumes "a < 10" "b < 10" "''0123456789'' ! a = ''0123456789'' ! b"
  shows "a = b"
proof -
  have "distinct ''0123456789''" by simp
  moreover have "a < length ''0123456789''" "b < length ''0123456789''"
    using assms by simp_all
  ultimately show ?thesis using assms(3) by (simp only: nth_eq_iff_index_eq)
qed

lemma showNat_inj: "showNat n = showNat m \<Longrightarrow> n = m"
proof (induction n arbitrary: m rule: showNat.induct)
  case (1 n)
  show ?case
  proof (cases "n < 10")
    case True
    then have n: "showNat n = [''0123456789'' ! n]" by (simp add: showNat.simps)
    show ?thesis
    proof (cases "m < 10")
      case mt: True
      then have "showNat m = [''0123456789'' ! m]" by (simp add: showNat.simps)
      with n "1.prems" have "''0123456789'' ! n = ''0123456789'' ! m" by simp
      with True mt show ?thesis by (rule digit_inj)
    next
      case False
      then have "showNat m = showNat (m div 10) @ [''0123456789'' ! (m mod 10)]"
        by (subst showNat.simps) simp
      with n "1.prems" showNat_nonempty[of "m div 10"] show ?thesis
        by (cases "showNat (m div 10)") simp_all
    qed
  next
    case False
    then have n: "showNat n = showNat (n div 10) @ [''0123456789'' ! (n mod 10)]"
      by (subst showNat.simps) simp
    show ?thesis
    proof (cases "m < 10")
      case True
      then have "showNat m = [''0123456789'' ! m]" by (simp add: showNat.simps)
      with n "1.prems" showNat_nonempty[of "n div 10"] show ?thesis
        by (cases "showNat (n div 10)") simp_all
    next
      case mf: False
      then have "showNat m = showNat (m div 10) @ [''0123456789'' ! (m mod 10)]"
        by (subst showNat.simps) simp
      with n "1.prems" have e: "showNat (n div 10) = showNat (m div 10)"
        and d: "''0123456789'' ! (n mod 10) = ''0123456789'' ! (m mod 10)"
        by simp_all
      from "1.IH"[OF False e] have q: "n div 10 = m div 10" .
      have "n mod 10 = m mod 10"
        by (rule digit_inj[OF _ _ d]) simp_all
      with q show ?thesis
        by (metis div_mult_mod_eq)
    qed
  qed
qed

lemma showInt_chars: "CHR '','' \<notin> set (showInt i)"
  using showNat_digits[of "nat i"] showNat_digits[of "nat (- i)"]
  by (auto simp: showInt_def)

lemma showInt_inj: "showInt i = showInt j \<Longrightarrow> i = j"
proof -
  assume e: "showInt i = showInt j"
  have nm: "\<And>k. hd (showNat k) \<noteq> CHR ''-''"
  proof -
    fix k
    from showNat_nonempty[of k] have "hd (showNat k) \<in> set (showNat k)" by simp
    with showNat_digits[of k] show "hd (showNat k) \<noteq> CHR ''-''" by auto
  qed
  show ?thesis
  proof (cases "i < 0")
    case True
    show ?thesis
    proof (cases "j < 0")
      case jt: True
      with True e have "showNat (nat (- i)) = showNat (nat (- j))" by (simp add: showInt_def)
      then have "nat (- i) = nat (- j)" by (rule showNat_inj)
      with True jt show ?thesis by simp
    next
      case False
      with True e have "showNat (nat j) = CHR ''-'' # showNat (nat (- i))"
        by (simp add: showInt_def)
      then have "hd (showNat (nat j)) = CHR ''-''"
        by simp
      with nm[of "nat j"] show ?thesis by simp
    qed
  next
    case False
    show ?thesis
    proof (cases "j < 0")
      case True
      with False e have "showNat (nat i) = CHR ''-'' # showNat (nat (- j))"
        by (simp add: showInt_def)
      then have "hd (showNat (nat i)) = CHR ''-''"
        by simp
      with nm[of "nat i"] show ?thesis by simp
    next
      case jf: False
      with False e have "showNat (nat i) = showNat (nat j)" by (simp add: showInt_def)
      then have "nat i = nat j" by (rule showNat_inj)
      with False jf show ?thesis by simp
    qed
  qed
qed

lemma append_delimited:
  "x \<notin> set a \<Longrightarrow> x \<notin> set b \<Longrightarrow> a @ x # r = b @ x # r' \<Longrightarrow> a = b \<and> r = r'"
proof (induction a arbitrary: b)
  case Nil
  then show ?case by (cases b) auto
next
  case (Cons y ys)
  then show ?case by (cases b) auto
qed

lemma showInt_delimited [simp]:
  "(showInt i @ CHR '','' # r = showInt j @ CHR '','' # r') = (i = j \<and> r = r')"
  using append_delimited[OF showInt_chars[of i] showInt_chars[of j], where r = r and r' = r']
    showInt_inj[of i j]
  by auto












end
